theory Spec2Isabelle
  imports Complex_Main "HOL-Library.Sublist" "HOL-Library.AList" "HOL-Library.Log_Nat"
begin

section \<open>Rebalance engine, trading calendar and status store of qmt\_weight\_sync\<close>

text \<open>
  Conventions of the embedding.
  \<^item> Python \<open>int\<close> is \<open>int\<close>. A Python \<open>float\<close> is the rational it denotes (\<open>rat\<close>).
    The products and quotients of prices, weights and asset values round their exact
    result to the nearest binary64 value, ties to even, as the hardware does
    (\<open>float64\<close>, \<open>fmul\<close>, \<open>fdiv\<close>); magnitudes are taken to lie in the normal range of a
    binary64, so overflow, subnormal numbers, infinities and NaN are not modelled.
    Clock readings (\<open>time.time()\<close>) are exact rationals.
  \<^item> A Python \<open>dict\<close> is an association list in insertion order; \<open>map_of\<close> is the
    lookup and \<open>AList.update\<close> the assignment \<open>d[k] = v\<close>.
  \<^item> An exception is a value of \<open>exn\<close>; a function that can let one escape returns
    \<open>exn + 'a\<close> with \<open>Inl\<close> for the exception.
\<close>

datatype exn =
    IndexError
  | TypeError
  | ValueError
  | ZeroDivisionError
  | Timeout
  | OtherError

subsection \<open>core/trader.py: rounding and order splitting\<close>

text \<open>
  Python 3 \<open>round(x)\<close> with one argument: the nearest integer, a tie going to the even
  neighbour.
\<close>

definition py_round :: "rat \<Rightarrow> int" where
  "py_round x =
     (let f = \<lfloor>x\<rfloor>; d = x - of_int f
      in if d < 1 / 2 then f
         else if 1 / 2 < d then f + 1
         else if even f then f else f + 1)"

text \<open>
  Binary64 arithmetic. \<open>ilog2 x\<close> is the exponent \<open>e\<close> with \<open>2 ^ e \<le> |x| < 2 ^ (e + 1)\<close>;
  \<open>float64 x\<close> is the multiple of \<open>2 ^ (e - 52)\<close> nearest to \<open>x\<close>, a tie going to the even
  multiple: the value a float literal or a correctly rounded operation yields.
\<close>

definition pow2 :: "int \<Rightarrow> rat" where
  "pow2 e = (if 0 \<le> e then 2 ^ nat e else 1 / 2 ^ nat (- e))"

definition ilog2 :: "rat \<Rightarrow> int" where
  "ilog2 x =
     (let (p, q) = quotient_of \<bar>x\<bar>; k = bitlen p - bitlen q
      in if pow2 k \<le> \<bar>x\<bar> then k else k - 1)"

definition float64 :: "rat \<Rightarrow> rat" where
  "float64 x =
     (if x = 0 then 0
      else let ulp = pow2 (ilog2 x - 52) in of_int (py_round (x / ulp)) * ulp)"

text \<open>\<open>a * b\<close> and \<open>a / b\<close> on floats.\<close>

definition fmul :: "rat \<Rightarrow> rat \<Rightarrow> rat" where
  "fmul a b = float64 (float64 a * float64 b)"

definition fdiv :: "rat \<Rightarrow> rat \<Rightarrow> rat" where
  "fdiv a b = float64 (float64 a / float64 b)"

text \<open>\<open>_round_to_hundred\<close>: \<open>int(round(volume / 100) * 100)\<close>.\<close>

definition round_to_hundred :: "rat \<Rightarrow> int" where
  "round_to_hundred volume = py_round (fdiv volume 100) * 100"

text \<open>
  The reference rounding the specification names: nearest hundred, a tie at the
  50-share boundary going away from zero.
\<close>

definition round_half_away :: "rat \<Rightarrow> int" where
  "round_half_away x = (if 0 \<le> x then \<lfloor>x + 1 / 2\<rfloor> else \<lceil>x - 1 / 2\<rceil>)"

definition round_to_hundred_reference :: "rat \<Rightarrow> int" where
  "round_to_hundred_reference volume = round_half_away (volume / 100) * 100"

text \<open>\<open>_is_star_market\<close>: the code starts with 688 and ends with .SH.\<close>

definition is_star_market :: "string \<Rightarrow> bool" where
  "is_star_market stock_code \<longleftrightarrow> prefix ''688'' stock_code \<and> suffix ''.SH'' stock_code"

text \<open>
  The \<open>while remaining > 0\<close> loop of \<open>_split_order_volume\<close>. With a non-positive
  \<open>max_per_order\<close> the loop of the source never ends, so the loop is a partial function:
  \<open>None\<close> is "does not return".
\<close>

partial_function (option) split_loop :: "int \<Rightarrow> int \<Rightarrow> int list \<Rightarrow> int list option" where
  "split_loop max_per_order remaining splits =
     (if 0 < remaining then
        (if max_per_order < remaining
         then split_loop max_per_order (remaining - max_per_order) (splits @ [max_per_order])
         else split_loop max_per_order 0 (splits @ [remaining]))
      else Some splits)"

definition split_order_volume' :: "int \<Rightarrow> int \<Rightarrow> int list option" where
  "split_order_volume' volume max_per_order =
     (if volume \<le> max_per_order then Some [volume] else split_loop max_per_order volume [])"

text \<open>The call with the default \<open>max_per_order = 100000\<close>, the only one the source makes.\<close>

definition split_order_volume :: "int \<Rightarrow> int list option" where
  "split_order_volume volume = split_order_volume' volume 100000"

subsection \<open>core/trader.py: the gateway as the engine sees it\<close>

text \<open>
  One entry of \<open>xtdata.get_full_tick\<close>: the two five-level price ladders the source
  reads.
\<close>

record tick =
  askPrice :: "rat list"
  bidPrice :: "rat list"

text \<open>One order as \<open>query_stock_orders\<close> reports it.\<close>

record order =
  stock_code :: string
  order_volume :: int
  traded_volume :: int

text \<open>One value of the dict built by \<open>get_current_position\<close>.\<close>

record position =
  volume :: int
  can_use_volume :: int
  market_value :: rat
  avg_price :: rat

datatype side = STOCK_BUY | STOCK_SELL

text \<open>
  The \<open>order_remark\<close> of an order: \<open>"sell_stock"\<close> / \<open>"buy_stock"\<close> for a whole order,
  \<open>"sell_stock_split_i"\<close> / \<open>"buy_stock_split_i"\<close> for the i-th chunk.
\<close>

datatype remark = Whole | Split_no nat

text \<open>
  The \<open>logger.warning\<close> and \<open>logger.error\<close> lines of the engine, and the two
  \<open>logger.info\<close> lines with which the fill-wait announces success. The other
  \<open>logger.info\<close> lines are not recorded.
\<close>

datatype log_line =
    Tick_failed
  | No_tick string
  | Zero_price string
  | Phase_timeout side
  | No_open_orders
  | All_filled
  | Query_failed
  | Wait_timeout

text \<open>
  What the engine does to the outside world, in order. \<open>Cancel_order_stock\<close> is the
  gateway's cancel call; it is part of the vocabulary so that its absence can be
  stated.
\<close>

datatype event =
    Get_full_tick "string list"
  | Order_stock side string int rat remark
  | Cancel_order_stock int
  | Query_stock_orders
  | Sleep int
  | Log log_line

text \<open>
  The outside world as a script: what the n-th call of \<open>get_full_tick\<close> and of
  \<open>query_stock_orders\<close> answers (\<open>Inl\<close>: the call raises), and how many seconds of
  wall-clock time the n-th \<open>query_stock_orders\<close> takes. Time a real \<open>time.sleep\<close>
  spends beyond the requested interval counts towards the next query.
\<close>

record gateway =
  full_tick :: "nat \<Rightarrow> string list \<Rightarrow> exn + (string \<rightharpoonup> tick)"
  stock_orders :: "nat \<Rightarrow> exn + order list"
  latency :: "nat \<Rightarrow> rat"

record world =
  clock :: rat
  ticks :: nat
  polls :: nat
  trace :: "event list"

definition get_full_tick :: "gateway \<Rightarrow> string list \<Rightarrow> world \<Rightarrow> (exn + (string \<rightharpoonup> tick)) \<times> world" where
  "get_full_tick g stock_list w =
     (full_tick g (ticks w) stock_list,
      w\<lparr>ticks := Suc (ticks w), trace := trace w @ [Get_full_tick stock_list]\<rparr>)"

text \<open>
  \<open>xt_trader.order_stock\<close> reports a rejected order by its return value, which the source
  ignores; the call itself is taken not to raise.
\<close>

definition order_stock :: "side \<Rightarrow> string \<Rightarrow> int \<Rightarrow> rat \<Rightarrow> remark \<Rightarrow> world \<Rightarrow> world" where
  "order_stock sd code vol price rm w = w\<lparr>trace := trace w @ [Order_stock sd code vol price rm]\<rparr>"

definition query_stock_orders :: "gateway \<Rightarrow> world \<Rightarrow> (exn + order list) \<times> world" where
  "query_stock_orders g w =
     (stock_orders g (polls w),
      w\<lparr>clock := clock w + latency g (polls w), polls := Suc (polls w),
        trace := trace w @ [Query_stock_orders]\<rparr>)"

text \<open>\<open>time.sleep\<close> raises \<open>ValueError\<close> on a negative length.\<close>

definition time_sleep :: "int \<Rightarrow> world \<Rightarrow> exn + world" where
  "time_sleep secs w =
     (if secs < 0 then Inl ValueError
      else Inr (w\<lparr>clock := clock w + of_int secs, trace := trace w @ [Sleep secs]\<rparr>))"

definition logger :: "log_line \<Rightarrow> world \<Rightarrow> world" where
  "logger l w = w\<lparr>trace := trace w @ [Log l]\<rparr>"

subsection \<open>core/trader.py: calculate\_target\_volume\<close>

text \<open>
  The \<open>for _, row in target_position.iterrows()\<close> loop. \<open>askPrice[2]\<close> raises
  \<open>IndexError\<close> on a ladder shorter than three; nothing in the function catches it.
\<close>

fun target_rows ::
  "(string \<rightharpoonup> tick) \<Rightarrow> rat \<Rightarrow> (string \<times> rat) list \<Rightarrow> (string \<times> int) list \<Rightarrow> world
     \<Rightarrow> (exn + (string \<times> int) list) \<times> world" where
  "target_rows realtime_data total_asset [] target_volumes w = (Inr target_volumes, w)"
| "target_rows realtime_data total_asset ((code, weight) # rows) target_volumes w =
     (let target_value = fmul total_asset weight
      in case realtime_data code of
           None \<Rightarrow> target_rows realtime_data total_asset rows target_volumes (logger (No_tick code) w)
         | Some t \<Rightarrow>
             if length (askPrice t) \<le> 2 then (Inl IndexError, w)
             else let price = askPrice t ! 2
                  in if price = 0
                     then target_rows realtime_data total_asset rows target_volumes
                            (logger (Zero_price code) w)
                     else target_rows realtime_data total_asset rows
                            (AList.update code (round_to_hundred (fdiv target_value price))
                               target_volumes) w)"

text \<open>
  \<open>calculate_target_volume\<close>: the batch quote call is inside \<open>try\<close>; its handler logs and
  returns the empty dict.
\<close>

definition calculate_target_volume ::
  "gateway \<Rightarrow> (string \<times> rat) list \<Rightarrow> rat \<Rightarrow> world \<Rightarrow> (exn + (string \<times> int) list) \<times> world" where
  "calculate_target_volume g target_position total_asset w =
     (case get_full_tick g (map fst target_position) w of
        (Inl e, w1) \<Rightarrow> (Inr [], logger Tick_failed w1)
      | (Inr realtime_data, w1) \<Rightarrow> target_rows realtime_data total_asset target_position [] w1)"

subsection \<open>core/trader.py: wait\_for\_orders\_completion\<close>

datatype poll = Filled | Pending

text \<open>
  One pass through the body of the \<open>while\<close> loop. The \<open>try\<close> block raises when the query
  raises, when the progress percentage of a pending order divides by an
  \<open>order_volume\<close> of zero, or when \<open>time.sleep\<close> rejects the interval; the handler logs
  and sleeps again, outside any \<open>try\<close>.
\<close>

definition poll_once :: "gateway \<Rightarrow> int \<Rightarrow> world \<Rightarrow> (exn + poll) \<times> world" where
  "poll_once g check_interval w =
     (case query_stock_orders g w of (reply, w1) \<Rightarrow>
        (let attempt =
               (case reply of
                  Inl e \<Rightarrow> Inl e
                | Inr orders \<Rightarrow>
                    if orders = [] then Inr (Filled, logger No_open_orders w1)
                    else let pending = filter (\<lambda>x. traded_volume x < order_volume x) orders
                         in if pending = [] then Inr (Filled, logger All_filled w1)
                            else if \<exists>x \<in> set pending. order_volume x = 0 then Inl ZeroDivisionError
                            else (case time_sleep check_interval w1 of
                                    Inl e \<Rightarrow> Inl e
                                  | Inr w2 \<Rightarrow> Inr (Pending, w2)))
         in case attempt of
              Inr (p, w') \<Rightarrow> (Inr p, w')
            | Inl e \<Rightarrow>
                (let w2 = logger Query_failed w1
                 in case time_sleep check_interval w2 of
                      Inl e' \<Rightarrow> (Inl e', w2)
                    | Inr w3 \<Rightarrow> (Inr Pending, w3))))"

text \<open>
  The loop \<open>while time.time() - start_time < max_wait_time\<close>. Nothing in the source
  bounds the number of passes, so the loop is a partial function.
\<close>

partial_function (option) wait_loop ::
  "gateway \<Rightarrow> rat \<Rightarrow> int \<Rightarrow> int \<Rightarrow> world \<Rightarrow> ((exn + bool) \<times> world) option" where
  "wait_loop g start_time max_wait_time check_interval w =
     (if clock w - start_time < of_int max_wait_time then
        (case poll_once g check_interval w of
           (Inl e, w') \<Rightarrow> Some (Inl e, w')
         | (Inr Filled, w') \<Rightarrow> Some (Inr True, w')
         | (Inr Pending, w') \<Rightarrow> wait_loop g start_time max_wait_time check_interval w')
      else Some (Inr False, logger Wait_timeout w))"

definition wait_for_orders_completion' ::
  "gateway \<Rightarrow> int \<Rightarrow> int \<Rightarrow> world \<Rightarrow> ((exn + bool) \<times> world) option" where
  "wait_for_orders_completion' g max_wait_time check_interval w =
     wait_loop g (clock w) max_wait_time check_interval w"

text \<open>The call with the defaults \<open>MAX_WAIT_TIME = 300\<close> and \<open>CHECK_INTERVAL = 2\<close>.\<close>

definition wait_for_orders_completion :: "gateway \<Rightarrow> world \<Rightarrow> ((exn + bool) \<times> world) option" where
  "wait_for_orders_completion g w = wait_for_orders_completion' g 300 2 w"

subsection \<open>core/trader.py: execute\_rebalance\<close>

text \<open>\<open>target_volumes.get(stock_code, 0)\<close>.\<close>

definition target_of :: "(string \<times> int) list \<Rightarrow> string \<Rightarrow> int" where
  "target_of target_volumes code = (case map_of target_volumes code of None \<Rightarrow> 0 | Some v \<Rightarrow> v)"

text \<open>\<open>current_position.get(stock_code, {}).get('can_use_volume', 0)\<close>.\<close>

definition current_of :: "(string \<times> position) list \<Rightarrow> string \<Rightarrow> int" where
  "current_of current_position code =
     (case map_of current_position code of None \<Rightarrow> 0 | Some pos_info \<Rightarrow> can_use_volume pos_info)"

text \<open>Step 1, first loop: over \<open>current_position.items()\<close>.\<close>

definition sell_list :: "(string \<times> int) list \<Rightarrow> (string \<times> position) list \<Rightarrow> (string \<times> int) list" where
  "sell_list target_volumes current_position =
     [(code, can_use_volume pos_info - target_of target_volumes code).
        (code, pos_info) \<leftarrow> current_position,
        target_of target_volumes code < can_use_volume pos_info]"

text \<open>Step 1, second loop: over \<open>target_volumes.items()\<close>.\<close>

definition buy_list :: "(string \<times> int) list \<Rightarrow> (string \<times> position) list \<Rightarrow> (string \<times> int) list" where
  "buy_list target_volumes current_position =
     [(code, target_volume - current_of current_position code).
        (code, target_volume) \<leftarrow> target_volumes,
        current_of current_position code < target_volume]"

text \<open>\<open>for i, split_volume in enumerate(splits, 1)\<close>: one order per chunk.\<close>

fun submit_splits :: "side \<Rightarrow> string \<Rightarrow> rat \<Rightarrow> nat \<Rightarrow> int list \<Rightarrow> world \<Rightarrow> world" where
  "submit_splits sd code price i [] w = w"
| "submit_splits sd code price i (split_volume # rest) w =
     submit_splits sd code price (Suc i) rest (order_stock sd code split_volume price (Split_no i) w)"

text \<open>The ladder a phase prices from: \<open>bidPrice\<close> when selling, \<open>askPrice\<close> when buying.\<close>

definition ladder :: "side \<Rightarrow> tick \<Rightarrow> rat list" where
  "ladder sd t = (case sd of STOCK_SELL \<Rightarrow> bidPrice t | STOCK_BUY \<Rightarrow> askPrice t)"

text \<open>
  The order loop of a phase (\<open>for stock_code, volume in sell_list\<close>, and the same for
  \<open>buy_list\<close>). Index 4 of a ladder shorter than five raises \<open>IndexError\<close>, which nothing
  catches.
\<close>

fun place_orders ::
  "side \<Rightarrow> (string \<rightharpoonup> tick) \<Rightarrow> (string \<times> int) list \<Rightarrow> world \<Rightarrow> ((exn + unit) \<times> world) option" where
  "place_orders sd realtime_data [] w = Some (Inr (), w)"
| "place_orders sd realtime_data ((code, vol) # rest) w =
     (case realtime_data code of
        None \<Rightarrow> place_orders sd realtime_data rest (logger (No_tick code) w)
      | Some t \<Rightarrow>
          if length (ladder sd t) \<le> 4 then Some (Inl IndexError, w)
          else let price = ladder sd t ! 4
               in if price = 0 then place_orders sd realtime_data rest (logger (Zero_price code) w)
                  else if is_star_market code then
                    (case split_order_volume vol of
                       None \<Rightarrow> None
                     | Some splits \<Rightarrow>
                         place_orders sd realtime_data rest (submit_splits sd code price 1 splits w))
                  else place_orders sd realtime_data rest (order_stock sd code vol price Whole w))"

text \<open>
  One phase (steps 2-3 for the sell side, 4-5 for the buy side): batch quotes, orders,
  fill-wait. \<open>Inr False\<close> is \<open>return False\<close>, \<open>Inr True\<close> is falling through to what
  follows the phase.
\<close>

definition run_phase ::
  "gateway \<Rightarrow> side \<Rightarrow> (string \<times> int) list \<Rightarrow> world \<Rightarrow> ((exn + bool) \<times> world) option" where
  "run_phase g sd todo w =
     (case get_full_tick g (map fst todo) w of
        (Inl e, w1) \<Rightarrow> Some (Inr False, logger Tick_failed w1)
      | (Inr realtime_data, w1) \<Rightarrow>
          (case place_orders sd realtime_data todo w1 of
             None \<Rightarrow> None
           | Some (Inl e, w2) \<Rightarrow> Some (Inl e, w2)
           | Some (Inr u, w2) \<Rightarrow>
               (case wait_for_orders_completion g w2 of
                  None \<Rightarrow> None
                | Some (Inl e, w3) \<Rightarrow> Some (Inl e, w3)
                | Some (Inr True, w3) \<Rightarrow> Some (Inr True, w3)
                | Some (Inr False, w3) \<Rightarrow> Some (Inr False, logger (Phase_timeout sd) w3))))"

definition execute_rebalance ::
  "gateway \<Rightarrow> (string \<times> int) list \<Rightarrow> (string \<times> position) list \<Rightarrow> world
     \<Rightarrow> ((exn + bool) \<times> world) option" where
  "execute_rebalance g target_volumes current_position w =
     (let sells = sell_list target_volumes current_position;
          buys = buy_list target_volumes current_position
      in case (if sells \<noteq> [] then run_phase g STOCK_SELL sells w else Some (Inr True, w)) of
           None \<Rightarrow> None
         | Some (Inl e, w1) \<Rightarrow> Some (Inl e, w1)
         | Some (Inr False, w1) \<Rightarrow> Some (Inr False, w1)
         | Some (Inr True, w1) \<Rightarrow>
             (if buys \<noteq> [] then run_phase g STOCK_BUY buys w1 else Some (Inr True, w1)))"

text \<open>Predicates on the trace.\<close>

definition is_buy_order :: "event \<Rightarrow> bool" where
  "is_buy_order e = (case e of Order_stock sd code vol price rm \<Rightarrow> sd = STOCK_BUY | _ \<Rightarrow> False)"

definition is_order :: "event \<Rightarrow> bool" where
  "is_order e = (case e of Order_stock sd code vol price rm \<Rightarrow> True | _ \<Rightarrow> False)"

definition is_cancel :: "event \<Rightarrow> bool" where
  "is_cancel e = (case e of Cancel_order_stock oid \<Rightarrow> True | _ \<Rightarrow> False)"

definition is_tick_fetch :: "event \<Rightarrow> bool" where
  "is_tick_fetch e = (case e of Get_full_tick codes \<Rightarrow> True | _ \<Rightarrow> False)"

definition is_sleep :: "event \<Rightarrow> bool" where
  "is_sleep e = (case e of Sleep secs \<Rightarrow> True | _ \<Rightarrow> False)"

text \<open>The fill-wait announces success with one of two log lines, then returns \<open>True\<close>.\<close>

definition fill_wait_ok :: "event \<Rightarrow> bool" where
  "fill_wait_ok e \<longleftrightarrow> e = Log No_open_orders \<or> e = Log All_filled"

subsection \<open>utils/trading\_calendar.py\<close>

text \<open>A \<open>datetime.date\<close>, and \<open>date.weekday()\<close> as the standard library computes it.\<close>

record date =
  year :: int
  month :: int
  day :: int

definition is_leap :: "int \<Rightarrow> bool" where
  "is_leap y \<longleftrightarrow> y mod 4 = 0 \<and> (y mod 100 \<noteq> 0 \<or> y mod 400 = 0)"

definition days_before_year :: "int \<Rightarrow> int" where
  "days_before_year y = (let z = y - 1 in z * 365 + z div 4 - z div 100 + z div 400)"

definition days_before_month :: "int \<Rightarrow> int \<Rightarrow> int" where
  "days_before_month y m =
     (if 1 \<le> m \<and> m \<le> 12
      then [0, 31, 59, 90, 120, 151, 181, 212, 243, 273, 304, 334] ! nat (m - 1)
           + (if 2 < m \<and> is_leap y then 1 else 0)
      else 0)"

definition toordinal :: "date \<Rightarrow> int" where
  "toordinal d = days_before_year (year d) + days_before_month (year d) (month d) + day d"

text \<open>Monday is 0, Sunday is 6.\<close>

definition weekday :: "date \<Rightarrow> int" where
  "weekday d = (toordinal d + 6) mod 7"

text \<open>A \<open>datetime\<close>: a date and the microseconds since midnight; \<open>>=\<close> on two of them.\<close>

record datetime =
  on_date :: date
  micros :: nat

definition datetime_ge :: "datetime \<Rightarrow> datetime \<Rightarrow> bool" where
  "datetime_ge a b \<longleftrightarrow>
     (let x = on_date a; y = on_date b
      in year y < year x \<or> (year x = year y \<and>
          (month y < month x \<or> (month x = month y \<and>
            (day y < day x \<or> (day x = day y \<and> micros b \<le> micros a))))))"

text \<open>\<open>datetime(year, month, 1)\<close> raises \<open>ValueError\<close> outside years 1-9999 and months 1-12.\<close>

definition first_of_month :: "int \<Rightarrow> int \<Rightarrow> exn + datetime" where
  "first_of_month y m =
     (if 1 \<le> y \<and> y \<le> 9999 \<and> 1 \<le> m \<and> m \<le> 12
      then Inr \<lparr>on_date = \<lparr>year = y, month = m, day = 1\<rparr>, micros = 0\<rparr>
      else Inl ValueError)"

text \<open>
  The \<open>expires_at\<close> of a month's cache record as \<open>_is_cache_expired\<close> meets it: missing
  or empty, present but rejected by \<open>datetime.fromisoformat\<close>, or a timestamp.
\<close>

datatype expiry = No_expiry | Bad_expiry | Expiry datetime

record month_entry =
  trading_days :: "date list"
  fetched_at :: datetime
  expires_at :: expiry

text \<open>
  What \<open>self._monthly_cache\<close> holds: a dict keyed by month (\<open>"YYYY-MM"\<close>, here the pair of
  year and month), or \<open>None\<close>, which \<open>_load_cache_from_file\<close> leaves there after reading
  a cache file whose \<open>months\<close> is \<open>null\<close>. Other values that are not a dict are not
  modelled.
\<close>

datatype months = Null | Months "int \<times> int \<rightharpoonup> month_entry"

text \<open>The service's state. The cache file holds the \<open>months\<close> value last written to it.\<close>

record calendar =
  trading_days_cache :: "date set"
  monthly_cache :: months
  cache_file :: "months option"

text \<open>
  One element of the exchange's \<open>data\<close> array: the \<open>jybz\<close> flag and the \<open>jyrq\<close> date
  string, the latter by what \<open>strptime\<close> makes of it.
\<close>

datatype jyrq = No_jyrq | Bad_jyrq | Jyrq date

record day_data =
  jybz :: "string option"
  jyrq :: jyrq

text \<open>
  What \<open>requests.get\<close> does: raise \<open>requests.Timeout\<close>, raise something else, or answer
  with a status code and a body whose \<open>json()\<close> raises or yields the \<open>data\<close> array.
\<close>

datatype http = Http_timeout | Http_raises | Http_response int "exn + day_data list"

text \<open>
  \<open>holiday_constants\<close> is not among the sources, so its two tables \<open>holidays\<close> and
  \<open>workdays\<close> are parameters: a collection of dates, or an object on which the test
  \<open>check_date in table\<close> raises.
\<close>

datatype table = Dates "date set" | No_container

definition contains :: "table \<Rightarrow> date \<Rightarrow> exn + bool" where
  "contains t d = (case t of Dates ds \<Rightarrow> Inr (d \<in> ds) | No_container \<Rightarrow> Inl TypeError)"

text \<open>Everything outside the service.\<close>

record calendar_env =
  remote :: "int \<Rightarrow> int \<Rightarrow> http"
  now :: datetime
  disk_ok :: bool
  holidays :: table
  workdays :: table

text \<open>A result that is an exception.\<close>

definition raises :: "exn + 'a \<Rightarrow> bool" where
  "raises r = (case r of Inl e \<Rightarrow> True | Inr v \<Rightarrow> False)"

text \<open>
  \<open>_is_trading_day_fallback\<close>: the \<open>try\<close> block, and the function with its handler
  \<open>except Exception: return False\<close>.
\<close>

definition is_trading_day_fallback_body :: "table \<Rightarrow> table \<Rightarrow> date \<Rightarrow> exn + bool" where
  "is_trading_day_fallback_body hol wk check_date =
     (if 5 \<le> weekday check_date then Inr False
      else case contains hol check_date of
             Inl e \<Rightarrow> Inl e
           | Inr True \<Rightarrow> Inr False
           | Inr False \<Rightarrow>
               (case contains wk check_date of
                  Inl e \<Rightarrow> Inl e
                | Inr True \<Rightarrow> Inr True
                | Inr False \<Rightarrow> Inr True))"

definition is_trading_day_fallback :: "table \<Rightarrow> table \<Rightarrow> date \<Rightarrow> bool" where
  "is_trading_day_fallback hol wk check_date =
     (case is_trading_day_fallback_body hol wk check_date of
        Inl e \<Rightarrow> False
      | Inr b \<Rightarrow> b)"

text \<open>\<open>_save_cache_to_file\<close>: a failure is logged and swallowed.\<close>

definition save_cache_to_file :: "calendar_env \<Rightarrow> calendar \<Rightarrow> calendar" where
  "save_cache_to_file env st =
     (if disk_ok env then st\<lparr>cache_file := Some (monthly_cache st)\<rparr> else st)"

text \<open>
  The parsing loop of \<open>_fetch_and_cache_month\<close>. It adds each day to the in-memory set
  as it goes, so what it added before an exception stays.
\<close>

fun parse_days :: "day_data list \<Rightarrow> date list \<Rightarrow> date set \<Rightarrow> (exn + date list) \<times> date set" where
  "parse_days [] days cache = (Inr days, cache)"
| "parse_days (r # rs) days cache =
     (if jybz r = Some ''1'' then
        (case jyrq r of
           No_jyrq \<Rightarrow> parse_days rs days cache
         | Bad_jyrq \<Rightarrow> (Inl ValueError, cache)
         | Jyrq d \<Rightarrow> parse_days rs (days @ [d]) (insert d cache))
      else parse_days rs days cache)"

text \<open>
  \<open>_fetch_and_cache_month\<close>: the \<open>try\<close> block with the state it leaves behind, and the
  function with its two handlers, both \<open>return False\<close>. Storing the month's record
  raises when \<open>self._monthly_cache\<close> is \<open>None\<close>.
\<close>

definition fetch_and_cache_month_body ::
  "calendar_env \<Rightarrow> int \<Rightarrow> int \<Rightarrow> calendar \<Rightarrow> (exn + bool) \<times> calendar" where
  "fetch_and_cache_month_body env y m st =
     (case remote env y m of
        Http_timeout \<Rightarrow> (Inl Timeout, st)
      | Http_raises \<Rightarrow> (Inl OtherError, st)
      | Http_response status_code body \<Rightarrow>
          if status_code \<noteq> 200 then (Inr False, st)
          else (case body of
                  Inl e \<Rightarrow> (Inl e, st)
                | Inr rows \<Rightarrow>
                    (case parse_days rows [] (trading_days_cache st) of
                       (Inl e, cache) \<Rightarrow> (Inl e, st\<lparr>trading_days_cache := cache\<rparr>)
                     | (Inr days, cache) \<Rightarrow>
                         (case (if m = 12 then first_of_month (y + 1) 1
                                else first_of_month y (m + 1)) of
                            Inl e \<Rightarrow> (Inl e, st\<lparr>trading_days_cache := cache\<rparr>)
                          | Inr next_month \<Rightarrow>
                              (case monthly_cache st of
                                 Null \<Rightarrow> (Inl TypeError, st\<lparr>trading_days_cache := cache\<rparr>)
                               | Months mc \<Rightarrow>
                                   (Inr True, save_cache_to_file env
                                      (st\<lparr>trading_days_cache := cache,
                                         monthly_cache := Months (mc((y, m) \<mapsto>
                                           \<lparr>trading_days = days, fetched_at = now env,
                                            expires_at = Expiry next_month\<rparr>))\<rparr>)))))))"

definition fetch_and_cache_month :: "calendar_env \<Rightarrow> int \<Rightarrow> int \<Rightarrow> calendar \<Rightarrow> bool \<times> calendar" where
  "fetch_and_cache_month env y m st =
     (case fetch_and_cache_month_body env y m st of
        (Inl e, st') \<Rightarrow> (False, st')
      | (Inr b, st') \<Rightarrow> (b, st'))"

text \<open>
  \<open>_is_cache_expired\<close>: the \<open>try\<close> block, and the function with its handler
  \<open>except Exception: return True\<close>.
\<close>

definition is_cache_expired_body :: "calendar_env \<Rightarrow> calendar \<Rightarrow> int \<times> int \<Rightarrow> exn + bool" where
  "is_cache_expired_body env st year_month =
     (case monthly_cache st of
        Null \<Rightarrow> Inl TypeError
      | Months mc \<Rightarrow>
          (case mc year_month of
             None \<Rightarrow> Inr True
           | Some entry \<Rightarrow>
               (case expires_at entry of
                  No_expiry \<Rightarrow> Inr True
                | Bad_expiry \<Rightarrow> Inl ValueError
                | Expiry t \<Rightarrow> Inr (datetime_ge (now env) t))))"

definition is_cache_expired :: "calendar_env \<Rightarrow> calendar \<Rightarrow> int \<times> int \<Rightarrow> bool" where
  "is_cache_expired env st year_month =
     (case is_cache_expired_body env st year_month of
        Inl e \<Rightarrow> True
      | Inr b \<Rightarrow> b)"

text \<open>
  \<open>is_trading_day\<close>: the \<open>try\<close> block, and the function with its handler
  \<open>except Exception: return False\<close>. In the \<open>try\<close> block the test
  \<open>year_month not in self._monthly_cache\<close> raises when that attribute is \<open>None\<close>; the three
  helpers return whatever happens inside them. The result of the function is a sum
  so that "raises nothing" is a statement; \<open>except Exception\<close> does not catch a
  \<open>KeyboardInterrupt\<close> or \<open>SystemExit\<close>, which are not modelled.
\<close>

definition is_trading_day_body :: "calendar_env \<Rightarrow> calendar \<Rightarrow> date \<Rightarrow> exn + (bool \<times> calendar)" where
  "is_trading_day_body env st check_date =
     (if check_date \<in> trading_days_cache st then Inr (True, st)
      else case monthly_cache st of
             Null \<Rightarrow> Inl TypeError
           | Months mc \<Rightarrow>
               (let year_month = (year check_date, month check_date);
                    st1 = (if mc year_month = None \<or> is_cache_expired env st year_month
                           then snd (fetch_and_cache_month env (year check_date)
                                       (month check_date) st)
                           else st)
                in if check_date \<in> trading_days_cache st1 then Inr (True, st1)
                   else Inr (is_trading_day_fallback (holidays env) (workdays env) check_date,
                             st1)))"

definition is_trading_day :: "calendar_env \<Rightarrow> calendar \<Rightarrow> date \<Rightarrow> exn + (bool \<times> calendar)" where
  "is_trading_day env st check_date =
     (case is_trading_day_body env st check_date of
        Inl e \<Rightarrow> Inr (False, st)
      | Inr r \<Rightarrow> Inr r)"

text \<open>The remote fetch fails without having parsed a row.\<close>

definition fetch_fails :: "calendar_env \<Rightarrow> int \<Rightarrow> int \<Rightarrow> bool" where
  "fetch_fails env y m =
     (case remote env y m of
        Http_timeout \<Rightarrow> True
      | Http_raises \<Rightarrow> True
      | Http_response status_code body \<Rightarrow>
          status_code \<noteq> 200 \<or> (case body of Inl e \<Rightarrow> True | Inr rows \<Rightarrow> False))"

subsection \<open>utils/status\_manager.py\<close>

text \<open>What \<open>json.load\<close> can return; a JSON object is a dict.\<close>

datatype json =
    JNull
  | JBool bool
  | JNum rat
  | JStr string
  | JArr "json list"
  | JObj "(string \<times> json) list"

text \<open>The status file: absent, present but not loadable, or holding a JSON value.\<close>

datatype status_file = No_file | Unreadable | Content json

definition read_status :: "status_file \<Rightarrow> json option" where
  "read_status f = (case f of No_file \<Rightarrow> None | Unreadable \<Rightarrow> None | Content j \<Rightarrow> Some j)"

text \<open>Python truthiness, for \<open>self.read_status() or {}\<close>.\<close>

definition truthy :: "json \<Rightarrow> bool" where
  "truthy j =
     (case j of
        JNull \<Rightarrow> False
      | JBool b \<Rightarrow> b
      | JNum n \<Rightarrow> n \<noteq> 0
      | JStr s \<Rightarrow> s \<noteq> []
      | JArr xs \<Rightarrow> xs \<noteq> []
      | JObj kvs \<Rightarrow> kvs \<noteq> [])"

definition or_empty :: "json option \<Rightarrow> json" where
  "or_empty r = (case r of None \<Rightarrow> JObj [] | Some j \<Rightarrow> if truthy j then j else JObj [])"

text \<open>\<open>status[key] = value\<close>: on anything but a dict, with a string key, a \<open>TypeError\<close>.\<close>

definition set_item :: "string \<Rightarrow> json \<Rightarrow> json \<Rightarrow> exn + json" where
  "set_item k v status =
     (case status of JObj kvs \<Rightarrow> Inr (JObj (AList.update k v kvs)) | _ \<Rightarrow> Inl TypeError)"

text \<open>
  \<open>write_status\<close>: \<open>open(..., "w")\<close> may fail, leaving the file as it was, or the dump may
  fail after the file was truncated; either way the exception is printed and
  swallowed.
\<close>

datatype disk = Disk_ok | Open_fails | Dump_fails

definition write_status :: "disk \<Rightarrow> json \<Rightarrow> status_file \<Rightarrow> status_file" where
  "write_status io status f =
     (case io of Disk_ok \<Rightarrow> Content status | Open_fails \<Rightarrow> f | Dump_fails \<Rightarrow> Unreadable)"

definition mark_completed :: "disk \<Rightarrow> bool \<Rightarrow> string \<Rightarrow> status_file \<Rightarrow> exn + status_file" where
  "mark_completed io success message f =
     (case set_item ''is_running'' (JBool False) (or_empty (read_status f)) of
        Inl e \<Rightarrow> Inl e
      | Inr s1 \<Rightarrow>
          (case set_item ''last_status'' (JStr (if success then ''success'' else ''failed'')) s1 of
             Inl e \<Rightarrow> Inl e
           | Inr s2 \<Rightarrow>
               (case (if message \<noteq> [] then set_item ''error_message'' (JStr message) s2
                      else Inr s2) of
                  Inl e \<Rightarrow> Inl e
                | Inr s3 \<Rightarrow> Inr (write_status io s3 f))))"

text \<open>The dict \<open>mark_completed\<close> starts from, and the dict a file holds.\<close>

definition fields_read :: "status_file \<Rightarrow> string \<rightharpoonup> json" where
  "fields_read f = (case or_empty (read_status f) of JObj kvs \<Rightarrow> map_of kvs | _ \<Rightarrow> Map.empty)"

definition fields_stored :: "status_file \<Rightarrow> string \<rightharpoonup> json" where
  "fields_stored f = (case f of Content (JObj kvs) \<Rightarrow> map_of kvs | _ \<Rightarrow> Map.empty)"

text \<open>The store can be updated: what it holds is not a non-empty JSON value other than an object.\<close>

definition updatable :: "status_file \<Rightarrow> bool" where
  "updatable f = (case or_empty (read_status f) of JObj kvs \<Rightarrow> True | _ \<Rightarrow> False)"

subsection \<open>Predicates used in the statements\<close>

text \<open>No order of the list is pending, in the sense of the filter of the fill-wait.\<close>

definition all_filled :: "order list \<Rightarrow> bool" where
  "all_filled orders \<longleftrightarrow> (\<forall>x \<in> set orders. \<not> traded_volume x < order_volume x)"

text \<open>Every answer of the order query is an exception or shows a pending order.\<close>

definition never_filled :: "gateway \<Rightarrow> bool" where
  "never_filled g \<longleftrightarrow>
     (\<forall>n. case stock_orders g n of Inl e \<Rightarrow> True | Inr orders \<Rightarrow> \<not> all_filled orders)"

text \<open>The world after one order query that added the events \<open>evs\<close>.\<close>

definition after_poll :: "gateway \<Rightarrow> world \<Rightarrow> event list \<Rightarrow> world" where
  "after_poll g w evs =
     w\<lparr>clock := clock w + latency g (polls w), polls := Suc (polls w), trace := trace w @ evs\<rparr>"

text \<open>Events the fill-wait may add.\<close>

definition waiting :: "event \<Rightarrow> bool" where
  "waiting e \<longleftrightarrow>
     (case e of
        Query_stock_orders \<Rightarrow> True
      | Sleep secs \<Rightarrow> True
      | Log l \<Rightarrow> l = Query_failed \<or> l = No_open_orders \<or> l = All_filled \<or> l = Wait_timeout
      | _ \<Rightarrow> False)"

text \<open>Events a phase of side \<open>sd\<close> may add while it places its orders.\<close>

definition placing :: "side \<Rightarrow> event \<Rightarrow> bool" where
  "placing sd e \<longleftrightarrow>
     (case e of
        Order_stock sd' code vol price rm \<Rightarrow> sd' = sd
      | Log l \<Rightarrow> (case l of No_tick code \<Rightarrow> True | Zero_price code \<Rightarrow> True | _ \<Rightarrow> False)
      | _ \<Rightarrow> False)"

text \<open>What the events of one whole phase of side \<open>sd\<close> look like; \<open>ok\<close>: the phase fell through.\<close>

definition phase_events :: "side \<Rightarrow> bool \<Rightarrow> event list \<Rightarrow> bool" where
  "phase_events sd ok evs \<longleftrightarrow>
     (\<forall>e \<in> set evs. \<not> is_cancel e)
     \<and> (\<forall>e \<in> set evs. is_buy_order e \<longrightarrow> sd = STOCK_BUY)
     \<and> (ok \<longrightarrow> (\<exists>e \<in> set evs. fill_wait_ok e))
     \<and> (\<forall>sd'. Log (Phase_timeout sd') \<in> set evs \<longrightarrow> sd' = sd \<and> \<not> ok)"

text \<open>
  \<open>calculate_target_volume\<close> skips a stock: no quote, or a third-level ask price of zero.
\<close>

definition skipped :: "(string \<rightharpoonup> tick) \<Rightarrow> string \<Rightarrow> bool" where
  "skipped realtime_data code =
     (case realtime_data code of
        None \<Rightarrow> True
      | Some t \<Rightarrow> 2 < length (askPrice t) \<and> askPrice t ! 2 = 0)"

text \<open>The warning \<open>calculate_target_volume\<close> logs when it skips a stock.\<close>

definition skip_line :: "(string \<rightharpoonup> tick) \<Rightarrow> string \<Rightarrow> event" where
  "skip_line realtime_data code =
     Log (if realtime_data code = None then No_tick code else Zero_price code)"

text \<open>The result of a fill-wait with the number of order queries made so far.\<close>

definition polls_made :: "((exn + bool) \<times> world) option \<Rightarrow> ((exn + bool) \<times> nat) option" where
  "polls_made res = map_option (\<lambda>(r, w'). (r, polls w')) res"

subsection \<open>Concrete inputs\<close>

definition world0 :: world where
  "world0 = \<lparr>clock = 0, ticks = 0, polls = 0, trace = []\<rparr>"

text \<open>The end-to-end scenario of the specification: plan A 300, B 0; held A 100, B 200.\<close>

definition plan_AB :: "(string \<times> int) list" where
  "plan_AB = [(''A'', 300), (''B'', 0)]"

definition holdings_AB :: "(string \<times> position) list" where
  "holdings_AB =
     [(''A'', \<lparr>volume = 100, can_use_volume = 100, market_value = 1000, avg_price = 10\<rparr>),
      (''B'', \<lparr>volume = 200, can_use_volume = 200, market_value = 4000, avg_price = 20\<rparr>)]"

text \<open>A plan that the holdings already meet.\<close>

definition plan_met :: "(string \<times> int) list" where
  "plan_met = [(''A'', 100), (''B'', 200)]"

definition flat_tick :: "rat \<Rightarrow> tick" where
  "flat_tick p = \<lparr>askPrice = [p, p, p, p, p], bidPrice = [p, p, p, p, p]\<rparr>"

text \<open>Quotes for A and B; every order is reported filled.\<close>

definition filling_gateway :: gateway where
  "filling_gateway =
     \<lparr>full_tick = (\<lambda>n codes. Inr [''A'' \<mapsto> flat_tick 10, ''B'' \<mapsto> flat_tick 20]),
      stock_orders = (\<lambda>n. Inr [\<lparr>stock_code = ''B'', order_volume = 200, traded_volume = 200\<rparr>]),
      latency = (\<lambda>n. 0)\<rparr>"

text \<open>Quotes for A and B; the order never fills and each query takes 300 seconds.\<close>

definition slow_gateway :: gateway where
  "slow_gateway =
     \<lparr>full_tick = (\<lambda>n codes. Inr [''A'' \<mapsto> flat_tick 10, ''B'' \<mapsto> flat_tick 20]),
      stock_orders = (\<lambda>n. Inr [\<lparr>stock_code = ''B'', order_volume = 200, traded_volume = 0\<rparr>]),
      latency = (\<lambda>n. 300)\<rparr>"

text \<open>The order never fills; queries take no time.\<close>

definition stuck_gateway :: gateway where
  "stuck_gateway =
     \<lparr>full_tick = (\<lambda>n codes. Inr Map.empty),
      stock_orders = (\<lambda>n. Inr [\<lparr>stock_code = ''B'', order_volume = 200, traded_volume = 0\<rparr>]),
      latency = (\<lambda>n. 0)\<rparr>"

text \<open>The first order query raises, the second finds no order.\<close>

definition flaky_gateway :: gateway where
  "flaky_gateway =
     \<lparr>full_tick = (\<lambda>n codes. Inr Map.empty),
      stock_orders = (\<lambda>n. if n = 0 then Inl OtherError else Inr []),
      latency = (\<lambda>n. 0)\<rparr>"

text \<open>The batch quote call raises.\<close>

definition quote_error_gateway :: gateway where
  "quote_error_gateway =
     \<lparr>full_tick = (\<lambda>n codes. Inl OtherError), stock_orders = (\<lambda>n. Inr []), latency = (\<lambda>n. 0)\<rparr>"

text \<open>The batch quote call succeeds with a snapshot that holds no stock.\<close>

definition no_quote_gateway :: gateway where
  "no_quote_gateway =
     \<lparr>full_tick = (\<lambda>n codes. Inr Map.empty), stock_orders = (\<lambda>n. Inr []), latency = (\<lambda>n. 0)\<rparr>"

definition one_stock :: "(string \<times> rat) list" where
  "one_stock = [(''600000.SH'', 1)]"

text \<open>Sunday 4 February 2024, Monday 8 January 2024 and Monday 19 February 2024.\<close>

definition sun_feb_04 :: date where
  "sun_feb_04 = \<lparr>year = 2024, month = 2, day = 4\<rparr>"

definition mon_jan_08 :: date where
  "mon_jan_08 = \<lparr>year = 2024, month = 1, day = 8\<rparr>"

definition mon_feb_19 :: date where
  "mon_feb_19 = \<lparr>year = 2024, month = 2, day = 19\<rparr>"

definition empty_calendar :: calendar where
  "empty_calendar =
     \<lparr>trading_days_cache = {}, monthly_cache = Months Map.empty, cache_file = None\<rparr>"

definition warm_calendar :: calendar where
  "warm_calendar =
     \<lparr>trading_days_cache = {mon_feb_19}, monthly_cache = Months Map.empty, cache_file = None\<rparr>"

text \<open>The state after loading a cache file whose \<open>months\<close> is \<open>null\<close>.\<close>

definition null_calendar :: calendar where
  "null_calendar = \<lparr>trading_days_cache = {}, monthly_cache = Null, cache_file = Some Null\<rparr>"

text \<open>A record for January 2024 whose \<open>expires_at\<close> cannot be parsed.\<close>

definition garbled_calendar :: calendar where
  "garbled_calendar =
     \<lparr>trading_days_cache = {},
      monthly_cache = Months [(2024, 1) \<mapsto>
        \<lparr>trading_days = [], fetched_at = \<lparr>on_date = mon_jan_08, micros = 0\<rparr>,
         expires_at = Bad_expiry\<rparr>],
      cache_file = None\<rparr>"

text \<open>The exchange cannot be reached; both static tables are empty.\<close>

definition offline_env :: calendar_env where
  "offline_env =
     \<lparr>remote = (\<lambda>y m. Http_timeout),
      now = \<lparr>on_date = mon_jan_08, micros = 0\<rparr>,
      disk_ok = True, holidays = Dates {}, workdays = Dates {}\<rparr>"

text \<open>The same, with a holiday table that does not support \<open>in\<close>.\<close>

definition tableless_env :: calendar_env where
  "tableless_env = offline_env\<lparr>holidays := No_container\<rparr>"

text \<open>The status file after a failed run.\<close>

definition failed_status :: status_file where
  "failed_status =
     Content (JObj [(''is_running'', JBool True),
                    (''last_run_time'', JStr ''2024-01-08 09:25:00''),
                    (''last_status'', JStr ''failed''),
                    (''error_message'', JStr ''boom'')])"

subsection \<open>Order splitting\<close>

lemma split_loop_done: "remaining \<le> 0 \<Longrightarrow> split_loop m remaining splits = Some splits"
  by (subst split_loop.simps) simp

lemma split_loop_last:
  "0 < remaining \<Longrightarrow> remaining \<le> m \<Longrightarrow> split_loop m remaining splits = Some (splits @ [remaining])"
  by (subst split_loop.simps) (simp add: split_loop_done)

lemma split_loop_more:
  "0 < remaining \<Longrightarrow> m < remaining \<Longrightarrow>
   split_loop m remaining splits = split_loop m (remaining - m) (splits @ [m])"
  by (subst split_loop.simps) simp

lemma split_loop_total:
  assumes "0 < m"
  shows "\<exists>ps. split_loop m remaining splits = Some (splits @ ps)
           \<and> sum_list ps = max remaining 0
           \<and> (\<forall>p \<in> set ps. 0 < p \<and> p \<le> m)
           \<and> (\<forall>p \<in> set (butlast ps). p = m)
           \<and> (0 < remaining \<longrightarrow> ps \<noteq> [])"
proof (induction "nat remaining" arbitrary: remaining splits rule: less_induct)
  case less
  consider "remaining \<le> 0" | "0 < remaining" "remaining \<le> m" | "m < remaining"
    by linarith
  then show ?case
  proof cases
    case 1
    then show ?thesis by (simp add: split_loop_done)
  next
    case 2
    then show ?thesis by (simp add: split_loop_last)
  next
    case 3
    with assms have "nat (remaining - m) < nat remaining" and pos: "0 < remaining - m"
      by simp_all
    from less [OF this(1), of "splits @ [m]"]
    obtain ps where ps: "split_loop m (remaining - m) (splits @ [m]) = Some ((splits @ [m]) @ ps)"
        "sum_list ps = max (remaining - m) 0"
        "\<forall>p \<in> set ps. 0 < p \<and> p \<le> m"
        "\<forall>p \<in> set (butlast ps). p = m"
        "ps \<noteq> []"
      using pos by blast
    from 3 assms have "split_loop m remaining splits = Some (splits @ (m # ps))"
      by (simp add: split_loop_more ps(1))
    moreover have "sum_list (m # ps) = max remaining 0"
      using ps(2) 3 assms by simp
    moreover have "\<forall>p \<in> set (m # ps). 0 < p \<and> p \<le> m"
      using ps(3) assms by simp
    moreover have "\<forall>p \<in> set (butlast (m # ps)). p = m"
      using ps(4,5) by simp
    ultimately show ?thesis by blast
  qed
qed

text \<open>
  C4. For every positive volume the split returns a list of parts; the parts sum to
  the volume, none exceeds 100000, every part but the last is exactly 100000, and
  the three examples of the specification evaluate as stated.
\<close>

theorem split_order_volume_parts:
  "(0 < v \<longrightarrow> (\<exists>parts. split_order_volume v = Some parts
       \<and> sum_list parts = v
       \<and> (\<forall>p \<in> set parts. p \<le> 100000)
       \<and> (\<forall>p \<in> set (butlast parts). p = 100000)))
   \<and> split_order_volume 250000 = Some [100000, 100000, 50000]
   \<and> split_order_volume 80000 = Some [80000]
   \<and> split_order_volume 100000 = Some [100000]"
proof (intro conjI impI)
  assume v: "0 < v"
  show "\<exists>parts. split_order_volume v = Some parts \<and> sum_list parts = v
          \<and> (\<forall>p \<in> set parts. p \<le> 100000) \<and> (\<forall>p \<in> set (butlast parts). p = 100000)"
  proof (cases "v \<le> 100000")
    case True
    then show ?thesis
      by (simp add: split_order_volume_def split_order_volume'_def)
  next
    case False
    obtain ps where "split_loop 100000 v [] = Some ([] @ ps)" "sum_list ps = max v 0"
        "\<forall>p \<in> set ps. 0 < p \<and> p \<le> 100000" "\<forall>p \<in> set (butlast ps). p = 100000"
      using split_loop_total [of 100000 v "[]"] by auto
    with False v show ?thesis
      by (auto simp: split_order_volume_def split_order_volume'_def)
  qed
next
  show "split_order_volume 250000 = Some [100000, 100000, 50000]"
    by (simp add: split_order_volume_def split_order_volume'_def split_loop_more split_loop_last)
  show "split_order_volume 80000 = Some [80000]"
    by (simp add: split_order_volume_def split_order_volume'_def)
  show "split_order_volume 100000 = Some [100000]"
    by (simp add: split_order_volume_def split_order_volume'_def)
qed

theorem split_order_volume_parts_witness:
  "\<exists>parts. split_order_volume 250000 = Some parts \<and> sum_list parts = 250000
     \<and> (\<forall>p \<in> set parts. p \<le> 100000) \<and> (\<forall>p \<in> set (butlast parts). p = 100000)"
  using split_order_volume_parts [of 250000] by simp

subsection \<open>Rounding of target volumes\<close>

text \<open>Away from a tie Python's \<open>round\<close> and rounding half away from zero agree.\<close>

lemma py_round_off_tie:
  assumes "0 \<le> x" "x - of_int \<lfloor>x\<rfloor> \<noteq> 1 / 2"
  shows "py_round x = round_half_away x"
proof (cases "x - of_int \<lfloor>x\<rfloor> < 1 / 2")
  case True
  have "\<lfloor>x + 1 / 2\<rfloor> = \<lfloor>x\<rfloor>"
    using True by (intro floor_unique) linarith+
  with True assms show ?thesis
    by (simp add: py_round_def round_half_away_def Let_def)
next
  case False
  with assms have gt: "1 / 2 < x - of_int \<lfloor>x\<rfloor>" by simp
  have "x < of_int \<lfloor>x\<rfloor> + 1" by linarith
  then have "\<lfloor>x + 1 / 2\<rfloor> = \<lfloor>x\<rfloor> + 1"
    using gt by (intro floor_unique) simp_all
  with False gt assms show ?thesis
    by (simp add: py_round_def round_half_away_def Let_def)
qed

text \<open>
  The float operations matter: with total asset 100000, weight 0.07 and price 5.6 the
  exact quotient 1250 is a tie, but the float quotient lies above it; with weight
  0.6285 and price 3.0 the exact quotient 20950 is a tie, but the float quotient lies
  below it; with total asset 250000, weight 0.5783 and price 578.3, likewise.
\<close>

lemma target_volume_float_examples:
  "round_to_hundred (fdiv (fmul 100000 (7 / 100)) (56 / 10)) = 1300"
  "round_to_hundred (fdiv (fmul 100000 (6285 / 10000)) 3) = 20900"
  "round_to_hundred (fdiv (fmul 250000 (5783 / 10000)) (5783 / 10)) = 300"
  by code_simp+

text \<open>
  C1. The claim is that the rounding of target volumes is round-half-away-from-zero
  to the nearest 100 shares for every non-negative quotient. At the 50-share
  boundary the source rounds to the even hundred instead: a quotient of 50 gives 0
  where the reference gives 100, and 250 gives 200 where the reference gives 300.
\<close>

theorem round_to_hundred_tie:
  "round_to_hundred 50 = 0 \<and> round_to_hundred_reference 50 = 100
   \<and> round_to_hundred 250 = 200 \<and> round_to_hundred_reference 250 = 300"
  by code_simp

subsection \<open>The static fallback of the calendar\<close>

lemma weekdays_2024:
  "weekday sun_feb_04 = 6" "weekday mon_jan_08 = 0" "weekday mon_feb_19 = 0"
  by (simp_all add: weekday_def toordinal_def days_before_year_def days_before_month_def
        is_leap_def Let_def sun_feb_04_def mon_jan_08_def mon_feb_19_def)

text \<open>With tables that are collections, the compensatory-workday table has no influence.\<close>

lemma fallback_ignores_workdays:
  "is_trading_day_fallback (Dates hol) (Dates wk) d \<longleftrightarrow> weekday d < 5 \<and> d \<notin> hol"
  by (auto simp: is_trading_day_fallback_def is_trading_day_fallback_body_def contains_def
      split: bool.splits)

text \<open>
  C2. The claim is that for the static fallback a weekend date is not a trading day,
  a date in the holiday table is not a trading day even on a weekday, a date in the
  compensatory-workday table is a trading day even on a weekend, and any other
  weekday is a trading day. The source tests the weekend first, so its test of the
  compensatory-workday table, commented as making such days trading days, is never
  reached for a weekend date: Sunday 4 February 2024, in the compensatory-workday
  table, is not a trading day for the fallback.
\<close>

theorem fallback_weekend_workday:
  "weekday sun_feb_04 = 6
   \<and> contains (Dates {sun_feb_04}) sun_feb_04 = Inr True
   \<and> is_trading_day_fallback (Dates {}) (Dates {sun_feb_04}) sun_feb_04 = False"
  by (simp add: is_trading_day_fallback_def is_trading_day_fallback_body_def contains_def
        weekdays_2024)

subsection \<open>The two empty outcomes of calculate\_target\_volume\<close>

lemma target_rows_all_skipped:
  "\<forall>code \<in> fst ` set rows. skipped rt code \<Longrightarrow>
   target_rows rt asset rows acc w =
     (Inr acc, w\<lparr>trace := trace w @ map (skip_line rt) (map fst rows)\<rparr>)"
proof (induction rows arbitrary: w)
  case Nil
  then show ?case by simp
next
  case (Cons row rows)
  obtain code weight where row: "row = (code, weight)" by (cases row)
  from Cons.prems have rest: "\<forall>code \<in> fst ` set rows. skipped rt code" by simp
  from Cons.prems row have sk: "skipped rt code" by simp
  show ?case
  proof (cases "rt code")
    case None
    with row Cons.IH [OF rest, of "logger (No_tick code) w"] show ?thesis
      by (simp add: logger_def skip_line_def)
  next
    case (Some t)
    with sk have "2 < length (askPrice t)" "askPrice t ! 2 = 0"
      by (simp_all add: skipped_def)
    with Some row Cons.IH [OF rest, of "logger (Zero_price code) w"] show ?thesis
      by (simp add: logger_def skip_line_def Let_def)
  qed
qed

text \<open>
  C3, as the claim states it, fails: the caller cannot tell the two outcomes apart.
  When the batch quote call raises and when it answers with a snapshot that holds
  none of the stocks, the function returns the same value, the empty dict.
\<close>

theorem empty_plans_equal_counterexample:
  "full_tick quote_error_gateway (ticks world0) (map fst one_stock) = Inl OtherError
   \<and> full_tick no_quote_gateway (ticks world0) (map fst one_stock) = Inr Map.empty
   \<and> fst (calculate_target_volume quote_error_gateway one_stock 1000000 world0) = Inr []
   \<and> fst (calculate_target_volume no_quote_gateway one_stock 1000000 world0) = Inr []"
  by (simp add: calculate_target_volume_def get_full_tick_def quote_error_gateway_def
        no_quote_gateway_def world0_def one_stock_def logger_def)

text \<open>
  C3, amended. \<open>calculate_target_volume\<close> has one return value and no error channel. When
  the single batch quote call raises, it returns the empty plan, having logged one
  error line after the call. When every input stock is skipped (no quote, or a
  third-level ask price of zero), it returns the empty plan as well, having logged one
  warning line per stock after the call. The two return values are equal; the two
  outcomes differ in the log lines only.
\<close>

theorem calculate_target_volume_empty:
  "(full_tick g (ticks w) (map fst rows) = Inl e \<longrightarrow>
      calculate_target_volume g rows asset w =
        (Inr [], w\<lparr>ticks := Suc (ticks w),
                   trace := trace w @ [Get_full_tick (map fst rows), Log Tick_failed]\<rparr>))
   \<and> (full_tick g (ticks w) (map fst rows) = Inr rt \<and> (\<forall>code \<in> fst ` set rows. skipped rt code) \<longrightarrow>
      calculate_target_volume g rows asset w =
        (Inr [], w\<lparr>ticks := Suc (ticks w),
                   trace := trace w @ Get_full_tick (map fst rows)
                              # map (skip_line rt) (map fst rows)\<rparr>))"
  by (simp add: calculate_target_volume_def get_full_tick_def target_rows_all_skipped logger_def)

theorem calculate_target_volume_empty_witness:
  "full_tick quote_error_gateway (ticks world0) (map fst one_stock) = Inl OtherError
   \<and> calculate_target_volume quote_error_gateway one_stock 1000000 world0 =
       (Inr [], \<lparr>clock = 0, ticks = 1, polls = 0,
                 trace = [Get_full_tick [''600000.SH''], Log Tick_failed]\<rparr>)
   \<and> full_tick no_quote_gateway (ticks world0) (map fst one_stock) = Inr Map.empty
   \<and> skipped Map.empty ''600000.SH''
   \<and> calculate_target_volume no_quote_gateway one_stock 1000000 world0 =
       (Inr [], \<lparr>clock = 0, ticks = 1, polls = 0,
                 trace = [Get_full_tick [''600000.SH''], Log (No_tick ''600000.SH'')]\<rparr>)"
  using
    calculate_target_volume_empty
      [of quote_error_gateway world0 one_stock OtherError 1000000 Map.empty]
    calculate_target_volume_empty
      [of no_quote_gateway world0 one_stock OtherError 1000000 Map.empty]
  by (simp add: quote_error_gateway_def no_quote_gateway_def skipped_def one_stock_def
        world0_def skip_line_def)

subsection \<open>The diff step\<close>

lemma sell_list_keys:
  "fst ` set (sell_list tv cp) = {c. \<exists>p. (c, p) \<in> set cp \<and> target_of tv c < can_use_volume p}"
  by (force simp: sell_list_def)

lemma buy_list_keys:
  "fst ` set (buy_list tv cp) = {c. \<exists>v. (c, v) \<in> set tv \<and> current_of cp c < v}"
  by (force simp: buy_list_def)

lemma current_of_item:
  "distinct (map fst cp) \<Longrightarrow> (c, p) \<in> set cp \<Longrightarrow> current_of cp c = can_use_volume p"
  by (simp add: current_of_def)

lemma target_of_item:
  "distinct (map fst tv) \<Longrightarrow> (c, v) \<in> set tv \<Longrightarrow> target_of tv c = v"
  by (simp add: target_of_def)

lemma sell_list_iff:
  assumes "distinct (map fst cp)" "\<forall>(c, v) \<in> set tv. 0 \<le> v"
  shows "c \<in> fst ` set (sell_list tv cp) \<longleftrightarrow> target_of tv c < current_of cp c"
proof
  assume "c \<in> fst ` set (sell_list tv cp)"
  then obtain p where "(c, p) \<in> set cp" "target_of tv c < can_use_volume p"
    by (auto simp: sell_list_keys)
  with assms(1) show "target_of tv c < current_of cp c"
    by (simp add: current_of_item)
next
  assume lt: "target_of tv c < current_of cp c"
  have "0 \<le> target_of tv c"
    using assms(2) by (auto simp: target_of_def split: option.splits dest!: map_of_SomeD)
  with lt have "current_of cp c \<noteq> 0" by simp
  then obtain p where "map_of cp c = Some p"
    by (auto simp: current_of_def split: option.splits)
  then have "(c, p) \<in> set cp" by (rule map_of_SomeD)
  with lt assms(1) show "c \<in> fst ` set (sell_list tv cp)"
    by (auto simp: sell_list_keys current_of_item)
qed

lemma buy_list_iff:
  assumes "distinct (map fst tv)" "\<forall>(c, p) \<in> set cp. 0 \<le> can_use_volume p"
  shows "c \<in> fst ` set (buy_list tv cp) \<longleftrightarrow> current_of cp c < target_of tv c"
proof
  assume "c \<in> fst ` set (buy_list tv cp)"
  then obtain v where "(c, v) \<in> set tv" "current_of cp c < v"
    by (auto simp: buy_list_keys)
  with assms(1) show "current_of cp c < target_of tv c"
    by (simp add: target_of_item)
next
  assume lt: "current_of cp c < target_of tv c"
  have "0 \<le> current_of cp c"
    using assms(2) by (auto simp: current_of_def split: option.splits dest!: map_of_SomeD)
  with lt have "target_of tv c \<noteq> 0" by simp
  then obtain v where "map_of tv c = Some v"
    by (auto simp: target_of_def split: option.splits)
  then have "(c, v) \<in> set tv" by (rule map_of_SomeD)
  with lt assms(1) show "c \<in> fst ` set (buy_list tv cp)"
    by (auto simp: buy_list_keys target_of_item)
qed

lemma diff_disjoint:
  assumes "distinct (map fst tv)" "distinct (map fst cp)"
  shows "fst ` set (sell_list tv cp) \<inter> fst ` set (buy_list tv cp) = {}"
proof -
  have False if "c \<in> fst ` set (sell_list tv cp)" "c \<in> fst ` set (buy_list tv cp)" for c
  proof -
    from that obtain p v where "(c, p) \<in> set cp" "target_of tv c < can_use_volume p"
        "(c, v) \<in> set tv" "current_of cp c < v"
      by (auto simp: sell_list_keys buy_list_keys)
    with assms show False by (simp add: current_of_item target_of_item)
  qed
  then show ?thesis by blast
qed

text \<open>
  C5. For a plan and a holdings map (dicts: no key twice) with non-negative
  volumes, no stock code is in both the sell list and the buy list; a code is in the
  sell list exactly when its current \<open>can_use_volume\<close> exceeds its target, and in the buy
  list exactly when its target exceeds its current \<open>can_use_volume\<close>, an absent key
  counting as 0.
\<close>

theorem diff_is_partition:
  assumes "distinct (map fst tv)" and "distinct (map fst cp)"
    and "\<forall>(c, v) \<in> set tv. 0 \<le> v" and "\<forall>(c, p) \<in> set cp. 0 \<le> can_use_volume p"
  shows "fst ` set (sell_list tv cp) \<inter> fst ` set (buy_list tv cp) = {}
     \<and> (\<forall>c. c \<in> fst ` set (sell_list tv cp) \<longleftrightarrow> target_of tv c < current_of cp c)
     \<and> (\<forall>c. c \<in> fst ` set (buy_list tv cp) \<longleftrightarrow> current_of cp c < target_of tv c)"
  using assms by (simp add: diff_disjoint sell_list_iff buy_list_iff)

theorem diff_is_partition_witness:
  "distinct (map fst plan_AB) \<and> distinct (map fst holdings_AB)
   \<and> sell_list plan_AB holdings_AB = [(''B'', 200)]
   \<and> buy_list plan_AB holdings_AB = [(''A'', 200)]
   \<and> fst ` set (sell_list plan_AB holdings_AB) \<inter> fst ` set (buy_list plan_AB holdings_AB) = {}"
  using diff_is_partition [of plan_AB holdings_AB]
  by (simp add: plan_AB_def holdings_AB_def sell_list_def buy_list_def target_of_def
        current_of_def)

subsection \<open>Nothing to do\<close>

text \<open>
  C9. When the diff step yields an empty sell list and an empty buy list,
  \<open>execute_rebalance\<close> returns \<open>True\<close> and leaves the world as it was: no quote is fetched
  and no order is submitted.
\<close>

theorem execute_rebalance_nothing_to_do:
  "sell_list tv cp = [] \<Longrightarrow> buy_list tv cp = [] \<Longrightarrow>
   execute_rebalance g tv cp w = Some (Inr True, w)"
  by (simp add: execute_rebalance_def)

theorem execute_rebalance_nothing_to_do_witness:
  "sell_list plan_met holdings_AB = [] \<and> buy_list plan_met holdings_AB = []
   \<and> execute_rebalance filling_gateway plan_met holdings_AB world0 = Some (Inr True, world0)"
  using execute_rebalance_nothing_to_do [of plan_met holdings_AB filling_gateway world0]
  by (simp add: plan_met_def holdings_AB_def sell_list_def buy_list_def target_of_def
        current_of_def)

subsection \<open>The status store\<close>

text \<open>
  C10. On a store that can be updated and a write that succeeds, \<open>mark_completed\<close>
  stores \<open>is_running = False\<close> and \<open>last_status\<close> "success" or "failed" by the flag; it
  stores the message in \<open>error_message\<close> exactly when the message is non-empty, whatever
  the flag, and otherwise leaves the \<open>error_message\<close> it read; every other field is
  stored as it was read.
\<close>

theorem mark_completed_fields:
  assumes "updatable f"
  shows "\<exists>f'. mark_completed Disk_ok success message f = Inr f'
     \<and> fields_stored f' ''is_running'' = Some (JBool False)
     \<and> fields_stored f' ''last_status'' = Some (JStr (if success then ''success'' else ''failed''))
     \<and> fields_stored f' ''error_message'' =
          (if message \<noteq> [] then Some (JStr message) else fields_read f ''error_message'')
     \<and> (\<forall>k. k \<noteq> ''is_running'' \<and> k \<noteq> ''last_status'' \<and> k \<noteq> ''error_message'' \<longrightarrow>
            fields_stored f' k = fields_read f k)"
proof -
  from assms obtain kvs where "or_empty (read_status f) = JObj kvs"
    by (auto simp: updatable_def split: json.splits)
  then show ?thesis
    by (simp add: mark_completed_def set_item_def write_status_def fields_stored_def
          fields_read_def update_conv')
qed

theorem mark_completed_fields_witness:
  "updatable failed_status
   \<and> (\<exists>f'. mark_completed Disk_ok True [] failed_status = Inr f'
         \<and> fields_stored f' ''is_running'' = Some (JBool False)
         \<and> fields_stored f' ''last_status'' = Some (JStr ''success'')
         \<and> fields_stored f' ''error_message'' = Some (JStr ''boom'')
         \<and> fields_stored f' ''last_run_time'' = Some (JStr ''2024-01-08 09:25:00''))
   \<and> (\<exists>f'. mark_completed Disk_ok True ''done'' failed_status = Inr f'
         \<and> fields_stored f' ''last_status'' = Some (JStr ''success'')
         \<and> fields_stored f' ''error_message'' = Some (JStr ''done''))"
proof -
  have u: "updatable failed_status"
    by (simp add: updatable_def failed_status_def or_empty_def read_status_def truthy_def)
  have r: "fields_read failed_status ''error_message'' = Some (JStr ''boom'')"
      "fields_read failed_status ''last_run_time'' = Some (JStr ''2024-01-08 09:25:00'')"
    by (simp_all add: fields_read_def failed_status_def or_empty_def read_status_def truthy_def)
  obtain f1 where f1: "mark_completed Disk_ok True [] failed_status = Inr f1"
      "fields_stored f1 ''is_running'' = Some (JBool False)"
      "fields_stored f1 ''last_status'' = Some (JStr (if True then ''success'' else ''failed''))"
      "fields_stored f1 ''error_message'' =
         (if ([]::string) \<noteq> [] then Some (JStr []) else fields_read failed_status ''error_message'')"
      "\<forall>k. k \<noteq> ''is_running'' \<and> k \<noteq> ''last_status'' \<and> k \<noteq> ''error_message'' \<longrightarrow>
            fields_stored f1 k = fields_read failed_status k"
    using mark_completed_fields [OF u, of True "[]"] by blast
  from f1(5) have "fields_stored f1 ''last_run_time'' = fields_read failed_status ''last_run_time''"
    by simp
  with f1 r have first: "\<exists>f'. mark_completed Disk_ok True [] failed_status = Inr f'
         \<and> fields_stored f' ''is_running'' = Some (JBool False)
         \<and> fields_stored f' ''last_status'' = Some (JStr ''success'')
         \<and> fields_stored f' ''error_message'' = Some (JStr ''boom'')
         \<and> fields_stored f' ''last_run_time'' = Some (JStr ''2024-01-08 09:25:00'')"
    by simp
  obtain f2 where f2: "mark_completed Disk_ok True ''done'' failed_status = Inr f2"
      "fields_stored f2 ''last_status'' = Some (JStr (if True then ''success'' else ''failed''))"
      "fields_stored f2 ''error_message'' =
         (if ''done'' \<noteq> [] then Some (JStr ''done'')
          else fields_read failed_status ''error_message'')"
    using mark_completed_fields [OF u, of True "''done''"] by blast
  then have second: "\<exists>f'. mark_completed Disk_ok True ''done'' failed_status = Inr f'
         \<and> fields_stored f' ''last_status'' = Some (JStr ''success'')
         \<and> fields_stored f' ''error_message'' = Some (JStr ''done'')"
    by simp
  from u first second show ?thesis by blast
qed

subsection \<open>The fill-wait\<close>

lemma poll_once_filled:
  assumes "stock_orders g (polls w) = Inr orders" "all_filled orders"
  shows "poll_once g i w =
           (Inr Filled, after_poll g w
              [Query_stock_orders, Log (if orders = [] then No_open_orders else All_filled)])"
  using assms
  by (simp add: poll_once_def query_stock_orders_def logger_def after_poll_def all_filled_def
        filter_empty_conv)

lemma poll_once_raises:
  assumes "stock_orders g (polls w) = Inl e" "0 \<le> i"
  shows "poll_once g i w =
           (Inr Pending, (after_poll g w [Query_stock_orders, Log Query_failed, Sleep i])
              \<lparr>clock := clock w + latency g (polls w) + of_int i\<rparr>)"
  using assms
  by (simp add: poll_once_def query_stock_orders_def logger_def after_poll_def time_sleep_def)

lemma poll_once_shape:
  assumes "poll_once g i w = (r, w')"
  shows "polls w' = Suc (polls w)
     \<and> ticks w' = ticks w
     \<and> (\<exists>evs. trace w' = trace w @ evs
           \<and> (\<forall>e \<in> set evs. waiting e)
           \<and> (r = Inr Filled \<longrightarrow> (\<exists>e \<in> set evs. fill_wait_ok e) \<and> (\<forall>e \<in> set evs. \<not> is_sleep e))
           \<and> (r \<noteq> Inr Filled \<longrightarrow> (\<forall>e \<in> set evs. \<not> fill_wait_ok e)))
     \<and> (r = Inr Pending \<longrightarrow> clock w' = clock w + latency g (polls w) + of_int i)
     \<and> (r = Inr Filled \<longrightarrow> (\<exists>orders. stock_orders g (polls w) = Inr orders \<and> all_filled orders))
     \<and> (0 \<le> i \<longrightarrow> (\<exists>p. r = Inr p))"
  using assms
  by (auto simp: poll_once_def query_stock_orders_def logger_def time_sleep_def Let_def
        waiting_def is_sleep_def fill_wait_ok_def all_filled_def
        filter_empty_conv
      split: sum.splits if_splits)

lemma wait_loop_shape:
  assumes "wait_loop g s m i w = Some (r, w')"
  shows "ticks w' = ticks w
     \<and> polls w \<le> polls w'
     \<and> (\<exists>evs. trace w' = trace w @ evs \<and> (\<forall>e \<in> set evs. waiting e)
           \<and> (r = Inr True \<longrightarrow> (\<exists>e \<in> set evs. fill_wait_ok e))
           \<and> (r \<noteq> Inr True \<longrightarrow> (\<forall>e \<in> set evs. \<not> fill_wait_ok e)))
     \<and> (r = Inr False \<longrightarrow> of_int m \<le> clock w' - s)
     \<and> (r = Inr True \<longrightarrow> \<not> never_filled g)
     \<and> (0 \<le> i \<longrightarrow> (\<exists>b. r = Inr b))"
proof -
  define y where "y = (r, w')"
  with assms have "wait_loop g s m i w = Some y" by simp
  then have "ticks (snd y) = ticks w
     \<and> polls w \<le> polls (snd y)
     \<and> (\<exists>evs. trace (snd y) = trace w @ evs \<and> (\<forall>e \<in> set evs. waiting e)
           \<and> (fst y = Inr True \<longrightarrow> (\<exists>e \<in> set evs. fill_wait_ok e))
           \<and> (fst y \<noteq> Inr True \<longrightarrow> (\<forall>e \<in> set evs. \<not> fill_wait_ok e)))
     \<and> (fst y = Inr False \<longrightarrow> of_int m \<le> clock (snd y) - s)
     \<and> (fst y = Inr True \<longrightarrow> \<not> never_filled g)
     \<and> (0 \<le> i \<longrightarrow> (\<exists>b. fst y = Inr b))"
  proof (induction g s m i w y rule: wait_loop.raw_induct [rotated 1, consumes 1])
    case (1 loop g s m i w y)
    show ?case
    proof (cases "clock w - s < of_int m")
      case False
      with 1(2) have "y = (Inr False, logger Wait_timeout w)" by simp
      with False show ?thesis
        by (auto simp: logger_def waiting_def fill_wait_ok_def)
    next
      case True
      obtain p w1 where po: "poll_once g i w = (p, w1)" by (cases "poll_once g i w")
      note sh = poll_once_shape [OF po]
      from sh obtain evs1 where evs1: "trace w1 = trace w @ evs1" "(\<forall>e \<in> set evs1. waiting e)"
          "p = Inr Filled \<longrightarrow> (\<exists>e \<in> set evs1. fill_wait_ok e)"
          "p \<noteq> Inr Filled \<longrightarrow> (\<forall>e \<in> set evs1. \<not> fill_wait_ok e)"
        by blast
      show ?thesis
      proof (cases p)
        case (Inl e)
        with 1(2) True po have "y = (Inl e, w1)" by simp
        with sh evs1 Inl show ?thesis by auto
      next
        case (Inr q)
        show ?thesis
        proof (cases q)
          case Filled
          with 1(2) True po Inr have y: "y = (Inr True, w1)" by simp
          from sh Inr Filled obtain orders where
            "stock_orders g (polls w) = Inr orders" "all_filled orders" by auto
          then have "\<not> never_filled g"
            unfolding never_filled_def by (auto intro!: exI [of _ "polls w"])
          with y sh evs1 Inr Filled show ?thesis by auto
        next
          case Pending
          with 1(2) True po Inr have "loop g s m i w1 = Some y" by simp
          from 1(1) [OF this] obtain evs2 where
            ih: "ticks (snd y) = ticks w1" "polls w1 \<le> polls (snd y)"
              "trace (snd y) = trace w1 @ evs2" "(\<forall>e \<in> set evs2. waiting e)"
              "fst y = Inr True \<longrightarrow> (\<exists>e \<in> set evs2. fill_wait_ok e)"
              "fst y \<noteq> Inr True \<longrightarrow> (\<forall>e \<in> set evs2. \<not> fill_wait_ok e)"
              "fst y = Inr False \<longrightarrow> of_int m \<le> clock (snd y) - s"
              "fst y = Inr True \<longrightarrow> \<not> never_filled g"
              "0 \<le> i \<longrightarrow> (\<exists>b. fst y = Inr b)"
            by blast
          have "trace (snd y) = trace w @ (evs1 @ evs2)" using ih(3) evs1(1) by simp
          moreover have "(\<forall>e \<in> set (evs1 @ evs2). waiting e)" using evs1(2) ih(4) by auto
          moreover have "fst y = Inr True \<longrightarrow> (\<exists>e \<in> set (evs1 @ evs2). fill_wait_ok e)"
            using ih(5) by auto
          moreover have "fst y \<noteq> Inr True \<longrightarrow> (\<forall>e \<in> set (evs1 @ evs2). \<not> fill_wait_ok e)"
            using ih(6) evs1(4) Inr Pending by auto
          ultimately show ?thesis using ih(1,2,7,8,9) sh by auto
        qed
      qed
    qed
  qed
  then show ?thesis by (simp add: y_def)
qed

lemma wait_loop_terminates:
  assumes "0 < i" "\<forall>n. 0 \<le> latency g n"
  shows "\<exists>b w'. wait_loop g s m i w = Some (Inr b, w')
     \<and> int (polls w') - int (polls w) \<le> max 0 \<lceil>(s + of_int m - clock w) / of_int i\<rceil>"
proof (induction "nat \<lceil>(s + of_int m - clock w) / of_int i\<rceil>" arbitrary: w rule: less_induct)
  case less
  let ?R = "s + of_int m - clock w"
  have ipos: "0 < (of_int i :: rat)" using assms(1) by simp
  show ?case
  proof (cases "clock w - s < of_int m")
    case False
    then have "wait_loop g s m i w = Some (Inr False, logger Wait_timeout w)"
      by (subst wait_loop.simps) simp
    then show ?thesis by (auto simp: logger_def)
  next
    case True
    then have Rpos: "0 < ?R" by simp
    then have "0 < ?R / of_int i" using ipos by simp
    then have ceil1: "1 \<le> \<lceil>?R / of_int i\<rceil>" by (simp add: ceiling_le_iff less_ceiling_iff)
    obtain p w1 where po: "poll_once g i w = (p, w1)" by (cases "poll_once g i w")
    note sh = poll_once_shape [OF po]
    from sh assms(1) obtain q where q: "p = Inr q" by auto
    show ?thesis
    proof (cases q)
      case Filled
      with True po q have "wait_loop g s m i w = Some (Inr True, w1)"
        by (subst wait_loop.simps) simp
      with sh ceil1 show ?thesis by auto
    next
      case Pending
      with True po q have step: "wait_loop g s m i w = wait_loop g s m i w1"
        by (subst wait_loop.simps) simp
      from sh q Pending have c1: "clock w1 = clock w + latency g (polls w) + of_int i" by simp
      let ?R1 = "s + of_int m - clock w1"
      have "?R1 \<le> ?R - of_int i" using c1 assms(2) by (simp add: algebra_simps)
      then have "?R1 / of_int i \<le> (?R - of_int i) / of_int i"
        using ipos by (simp add: divide_right_mono)
      also have "\<dots> = ?R / of_int i - 1" using ipos by (simp add: diff_divide_distrib)
      finally have "\<lceil>?R1 / of_int i\<rceil> \<le> \<lceil>?R / of_int i - 1\<rceil>" by (rule ceiling_mono)
      then have ceil2: "\<lceil>?R1 / of_int i\<rceil> \<le> \<lceil>?R / of_int i\<rceil> - 1" by simp
      with ceil1 have "nat \<lceil>?R1 / of_int i\<rceil> < nat \<lceil>?R / of_int i\<rceil>" by linarith
      from less [OF this] obtain b w' where
        ih: "wait_loop g s m i w1 = Some (Inr b, w')"
          "int (polls w') - int (polls w1) \<le> max 0 \<lceil>?R1 / of_int i\<rceil>"
        by blast
      from sh have "polls w1 = Suc (polls w)" by simp
      with ih(2) ceil1 ceil2
      have "int (polls w') - int (polls w) \<le> max 0 \<lceil>?R / of_int i\<rceil>" by linarith
      with ih(1) step show ?thesis by simp
    qed
  qed
qed

text \<open>
  C7, as the claim states it, fails in its bound: with a ceiling of 10 seconds and an
  interval of 3 seconds, orders that never fill are queried four times (at 0, 3, 6 and
  9 seconds) before the timeout, and four exceeds 10 / 3.
\<close>

theorem fill_wait_polls_counterexample:
  "polls_made (wait_for_orders_completion' stuck_gateway 10 3 world0) = Some (Inr False, 4)
   \<and> \<not> (4 \<le> (10 / 3 :: rat))"
  by (simp add: polls_made_def wait_for_orders_completion'_def wait_loop.simps poll_once_def
        query_stock_orders_def time_sleep_def logger_def stuck_gateway_def world0_def)

text \<open>
  C7, amended. With a positive ceiling, the fill-wait returns success on the first
  query, without sleeping, whenever the queried order list is empty or every order's
  traded quantity equals its ordered quantity. When a query raises, it logs, sleeps one
  interval and goes on with the loop. With a positive interval (and queries that take
  no negative time) it always returns, after at most \<open>\<lceil>ceiling / interval\<rceil>\<close> queries, which is
  ceiling / interval when the interval divides the ceiling (5 for 10 and 2); and if
  full fill is never reached it returns failure, not before the ceiling has passed.
\<close>

theorem fill_wait_behaviour:
  "(0 < m \<and> stock_orders g (polls w) = Inr orders
      \<and> (orders = [] \<or> (\<forall>x \<in> set orders. traded_volume x = order_volume x)) \<longrightarrow>
      (\<exists>w' evs. wait_for_orders_completion' g m i w = Some (Inr True, w')
         \<and> polls w' = Suc (polls w)
         \<and> trace w' = trace w @ evs \<and> (\<forall>e \<in> set evs. \<not> is_sleep e)))
   \<and> (0 < m \<and> 0 \<le> i \<and> stock_orders g (polls w) = Inl e \<longrightarrow>
        wait_for_orders_completion' g m i w =
          wait_loop g (clock w) m i
            ((after_poll g w [Query_stock_orders, Log Query_failed, Sleep i])
               \<lparr>clock := clock w + latency g (polls w) + of_int i\<rparr>))
   \<and> (0 < i \<and> (\<forall>n. 0 \<le> latency g n) \<longrightarrow>
        (\<exists>b w'. wait_for_orders_completion' g m i w = Some (Inr b, w')
           \<and> int (polls w') - int (polls w) \<le> max 0 \<lceil>(of_int m :: rat) / of_int i\<rceil>
           \<and> (never_filled g \<longrightarrow> \<not> b \<and> of_int m \<le> clock w' - clock w)))"
proof (intro conjI impI)
  assume a: "0 < m \<and> stock_orders g (polls w) = Inr orders
      \<and> (orders = [] \<or> (\<forall>x \<in> set orders. traded_volume x = order_volume x))"
  then have "all_filled orders" by (auto simp: all_filled_def)
  with a have "poll_once g i w =
      (Inr Filled, after_poll g w
         [Query_stock_orders, Log (if orders = [] then No_open_orders else All_filled)])"
    by (simp add: poll_once_filled)
  with a have "wait_for_orders_completion' g m i w =
      Some (Inr True, after_poll g w
         [Query_stock_orders, Log (if orders = [] then No_open_orders else All_filled)])"
    unfolding wait_for_orders_completion'_def by (subst wait_loop.simps) simp
  then show "\<exists>w' evs. wait_for_orders_completion' g m i w = Some (Inr True, w')
         \<and> polls w' = Suc (polls w)
         \<and> trace w' = trace w @ evs \<and> (\<forall>e \<in> set evs. \<not> is_sleep e)"
    by (simp add: after_poll_def is_sleep_def)
next
  assume a: "0 < m \<and> 0 \<le> i \<and> stock_orders g (polls w) = Inl e"
  then show "wait_for_orders_completion' g m i w =
          wait_loop g (clock w) m i
            ((after_poll g w [Query_stock_orders, Log Query_failed, Sleep i])
               \<lparr>clock := clock w + latency g (polls w) + of_int i\<rparr>)"
    unfolding wait_for_orders_completion'_def
    by (subst wait_loop.simps) (simp add: poll_once_raises)
next
  assume a: "0 < i \<and> (\<forall>n. 0 \<le> latency g n)"
  then obtain b w' where res: "wait_loop g (clock w) m i w = Some (Inr b, w')"
      "int (polls w') - int (polls w) \<le> max 0 \<lceil>(clock w + of_int m - clock w) / of_int i\<rceil>"
    using wait_loop_terminates [of i g "clock w" m w] by blast
  note sh = wait_loop_shape [OF res(1)]
  have "never_filled g \<longrightarrow> \<not> b \<and> of_int m \<le> clock w' - clock w"
    using sh by auto
  with res show "\<exists>b w'. wait_for_orders_completion' g m i w = Some (Inr b, w')
           \<and> int (polls w') - int (polls w) \<le> max 0 \<lceil>(of_int m :: rat) / of_int i\<rceil>
           \<and> (never_filled g \<longrightarrow> \<not> b \<and> of_int m \<le> clock w' - clock w)"
    by (auto simp: wait_for_orders_completion'_def)
qed

theorem fill_wait_behaviour_witness:
  "stock_orders filling_gateway (polls world0) =
     Inr [\<lparr>stock_code = ''B'', order_volume = 200, traded_volume = 200\<rparr>]
   \<and> (\<exists>w'. wait_for_orders_completion' filling_gateway 10 2 world0 = Some (Inr True, w')
         \<and> polls w' = Suc (polls world0))
   \<and> stock_orders flaky_gateway (polls world0) = Inl OtherError
   \<and> polls_made (wait_for_orders_completion' flaky_gateway 10 2 world0) = Some (Inr True, 2)
   \<and> never_filled stuck_gateway
   \<and> (\<exists>b w'. wait_for_orders_completion' stuck_gateway 10 2 world0 = Some (Inr b, w')
         \<and> int (polls w') - int (polls world0) \<le> 5 \<and> \<not> b)
   \<and> polls_made (wait_for_orders_completion' stuck_gateway 10 2 world0) = Some (Inr False, 5)"
proof -
  have filled: "stock_orders filling_gateway (polls world0) =
      Inr [\<lparr>stock_code = ''B'', order_volume = 200, traded_volume = 200\<rparr>]"
    by (simp add: filling_gateway_def)
  have first: "\<exists>w'. wait_for_orders_completion' filling_gateway 10 2 world0 = Some (Inr True, w')
         \<and> polls w' = Suc (polls world0)"
    using fill_wait_behaviour
      [of 10 filling_gateway world0
         "[\<lparr>stock_code = ''B'', order_volume = 200, traded_volume = 200\<rparr>]" 2 OtherError]
      filled
    by auto
  have raised: "stock_orders flaky_gateway (polls world0) = Inl OtherError"
    by (simp add: flaky_gateway_def world0_def)
  have second: "polls_made (wait_for_orders_completion' flaky_gateway 10 2 world0)
      = Some (Inr True, 2)"
    using fill_wait_behaviour [of 10 flaky_gateway world0 "[]" 2 OtherError] raised
    by (simp add: polls_made_def wait_loop.simps poll_once_def after_poll_def
          query_stock_orders_def time_sleep_def logger_def flaky_gateway_def world0_def)
  have stuck: "never_filled stuck_gateway"
    by (simp add: never_filled_def all_filled_def stuck_gateway_def)
  have "\<lceil>(10 :: rat) / 2\<rceil> = 5" by simp
  then have third: "\<exists>b w'. wait_for_orders_completion' stuck_gateway 10 2 world0 = Some (Inr b, w')
         \<and> int (polls w') - int (polls world0) \<le> 5 \<and> \<not> b"
    using fill_wait_behaviour [of 10 stuck_gateway world0 "[]" 2 OtherError] stuck
    by (auto simp: stuck_gateway_def)
  have fourth: "polls_made (wait_for_orders_completion' stuck_gateway 10 2 world0)
      = Some (Inr False, 5)"
    by (simp add: polls_made_def wait_for_orders_completion'_def wait_loop.simps poll_once_def
          query_stock_orders_def time_sleep_def logger_def stuck_gateway_def world0_def)
  from filled first raised second stuck third fourth show ?thesis by blast
qed

subsection \<open>Sell before buy\<close>

lemma split_order_volume_returns: "\<exists>splits. split_order_volume v = Some splits"
proof (cases "v \<le> 100000")
  case True
  then show ?thesis by (simp add: split_order_volume_def split_order_volume'_def)
next
  case False
  then show ?thesis
    using split_loop_total [of 100000 v "[]"]
    by (auto simp: split_order_volume_def split_order_volume'_def)
qed

lemma submit_splits_shape:
  "\<exists>evs. trace (submit_splits sd code price i vs w) = trace w @ evs
      \<and> (\<forall>e \<in> set evs. placing sd e)
      \<and> ticks (submit_splits sd code price i vs w) = ticks w
      \<and> polls (submit_splits sd code price i vs w) = polls w
      \<and> clock (submit_splits sd code price i vs w) = clock w"
proof (induction vs arbitrary: i w)
  case Nil
  then show ?case by simp
next
  case (Cons v vs)
  let ?w1 = "order_stock sd code v price (Split_no i) w"
  from Cons [of "Suc i" ?w1] obtain evs where
    "trace (submit_splits sd code price (Suc i) vs ?w1) = trace ?w1 @ evs"
    "\<forall>e \<in> set evs. placing sd e"
    "ticks (submit_splits sd code price (Suc i) vs ?w1) = ticks ?w1"
    "polls (submit_splits sd code price (Suc i) vs ?w1) = polls ?w1"
    "clock (submit_splits sd code price (Suc i) vs ?w1) = clock ?w1"
    by blast
  then show ?case
    by (intro exI [of _ "Order_stock sd code v price (Split_no i) # evs"])
       (simp add: order_stock_def placing_def)
qed

lemma place_orders_shape:
  "\<exists>r w'. place_orders sd rt todo w = Some (r, w')
      \<and> (\<exists>evs. trace w' = trace w @ evs \<and> (\<forall>e \<in> set evs. placing sd e))
      \<and> ticks w' = ticks w \<and> polls w' = polls w \<and> clock w' = clock w"
proof (induction todo arbitrary: w)
  case Nil
  then show ?case by simp
next
  case (Cons cv rest)
  obtain code vol where cv: "cv = (code, vol)" by (cases cv)
  have step: "\<exists>r w'. place_orders sd rt rest w1 = Some (r, w')
      \<and> (\<exists>evs. trace w' = trace w @ evs \<and> (\<forall>e \<in> set evs. placing sd e))
      \<and> ticks w' = ticks w \<and> polls w' = polls w \<and> clock w' = clock w"
    if "trace w1 = trace w @ evs1" "\<forall>e \<in> set evs1. placing sd e"
      "ticks w1 = ticks w" "polls w1 = polls w" "clock w1 = clock w" for w1 evs1
  proof -
    from Cons [of w1] obtain r w' evs where
      "place_orders sd rt rest w1 = Some (r, w')" "trace w' = trace w1 @ evs"
      "\<forall>e \<in> set evs. placing sd e" "ticks w' = ticks w1" "polls w' = polls w1" "clock w' = clock w1"
      by blast
    with that show ?thesis
      by (intro exI [of _ r] exI [of _ w'] conjI exI [of _ "evs1 @ evs"]) auto
  qed
  show ?case
  proof (cases "rt code")
    case None
    have "\<exists>r w'. place_orders sd rt rest (logger (No_tick code) w) = Some (r, w')
      \<and> (\<exists>evs. trace w' = trace w @ evs \<and> (\<forall>e \<in> set evs. placing sd e))
      \<and> ticks w' = ticks w \<and> polls w' = polls w \<and> clock w' = clock w"
      by (rule step [of _ "[Log (No_tick code)]"]) (simp_all add: logger_def placing_def)
    with None cv show ?thesis by simp
  next
    case (Some t)
    show ?thesis
    proof (cases "length (ladder sd t) \<le> 4")
      case True
      with Some cv show ?thesis by simp
    next
      case long: False
      show ?thesis
      proof (cases "ladder sd t ! 4 = 0")
        case True
        have "\<exists>r w'. place_orders sd rt rest (logger (Zero_price code) w) = Some (r, w')
          \<and> (\<exists>evs. trace w' = trace w @ evs \<and> (\<forall>e \<in> set evs. placing sd e))
          \<and> ticks w' = ticks w \<and> polls w' = polls w \<and> clock w' = clock w"
          by (rule step [of _ "[Log (Zero_price code)]"]) (simp_all add: logger_def placing_def)
        with Some cv long True show ?thesis by simp
      next
        case priced: False
        show ?thesis
        proof (cases "is_star_market code")
          case True
          obtain splits where sp: "split_order_volume vol = Some splits"
            using split_order_volume_returns by blast
          let ?w1 = "submit_splits sd code (ladder sd t ! 4) 1 splits w"
          from submit_splits_shape [of sd code "ladder sd t ! 4" 1 splits w]
          obtain evs1 where "trace ?w1 = trace w @ evs1" "\<forall>e \<in> set evs1. placing sd e"
            "ticks ?w1 = ticks w" "polls ?w1 = polls w" "clock ?w1 = clock w"
            by blast
          then have "\<exists>r w'. place_orders sd rt rest ?w1 = Some (r, w')
            \<and> (\<exists>evs. trace w' = trace w @ evs \<and> (\<forall>e \<in> set evs. placing sd e))
            \<and> ticks w' = ticks w \<and> polls w' = polls w \<and> clock w' = clock w"
            by (rule step)
          with Some cv long priced True sp show ?thesis by simp
        next
          case False
          have "\<exists>r w'. place_orders sd rt rest (order_stock sd code vol (ladder sd t ! 4) Whole w)
                  = Some (r, w')
            \<and> (\<exists>evs. trace w' = trace w @ evs \<and> (\<forall>e \<in> set evs. placing sd e))
            \<and> ticks w' = ticks w \<and> polls w' = polls w \<and> clock w' = clock w"
            by (rule step [of _ "[Order_stock sd code vol (ladder sd t ! 4) Whole]"])
               (simp_all add: order_stock_def placing_def)
          with Some cv long priced False show ?thesis by simp
        qed
      qed
    qed
  qed
qed

lemma placing_facts:
  "placing sd e \<Longrightarrow> \<not> is_cancel e \<and> \<not> fill_wait_ok e \<and> \<not> is_tick_fetch e
      \<and> e \<noteq> Log (Phase_timeout sd') \<and> (is_buy_order e \<longrightarrow> sd = STOCK_BUY)"
  by (auto simp: placing_def is_cancel_def fill_wait_ok_def is_tick_fetch_def is_buy_order_def
      split: event.splits log_line.splits)

lemma waiting_facts:
  "waiting e \<Longrightarrow> \<not> is_cancel e \<and> \<not> is_buy_order e \<and> \<not> is_order e \<and> \<not> is_tick_fetch e
      \<and> e \<noteq> Log (Phase_timeout sd')"
  by (auto simp: waiting_def is_cancel_def is_order_def is_tick_fetch_def is_buy_order_def
      split: event.splits)

lemma run_phase_shape:
  assumes "run_phase g sd todo w = Some (r, w')"
  shows "\<exists>evs. trace w' = trace w @ evs \<and> phase_events sd (r = Inr True) evs
           \<and> (r = Inr False \<or> r = Inr True \<or> (\<exists>e. r = Inl e))
           \<and> (Log (Phase_timeout sd) \<in> set evs \<longrightarrow> r = Inr False)"
proof -
  obtain q w1 where ft: "get_full_tick g (map fst todo) w = (q, w1)"
    by (cases "get_full_tick g (map fst todo) w")
  then have w1: "trace w1 = trace w @ [Get_full_tick (map fst todo)]"
    by (auto simp: get_full_tick_def)
  have gft: "\<not> is_cancel (Get_full_tick c) \<and> \<not> is_buy_order (Get_full_tick c)
      \<and> \<not> fill_wait_ok (Get_full_tick c)" for c
    by (simp add: is_cancel_def is_buy_order_def fill_wait_ok_def)
  show ?thesis
  proof (cases q)
    case (Inl e)
    with assms ft have "r = Inr False" "w' = logger Tick_failed w1"
      by (simp_all add: run_phase_def)
    with w1 show ?thesis
      by (intro exI [of _ "[Get_full_tick (map fst todo), Log Tick_failed]"])
         (simp add: logger_def phase_events_def is_cancel_def is_buy_order_def)
  next
    case (Inr rt)
    from place_orders_shape [of sd rt todo w1] obtain p w2 evs2 where
      po: "place_orders sd rt todo w1 = Some (p, w2)" "trace w2 = trace w1 @ evs2"
        "\<forall>e \<in> set evs2. placing sd e"
      by blast
    show ?thesis
    proof (cases p)
      case (Inl e)
      with assms ft Inr po have "r = Inl e" "w' = w2" by (simp_all add: run_phase_def)
      with w1 po(2,3) show ?thesis
        by (intro exI [of _ "Get_full_tick (map fst todo) # evs2"])
           (auto simp: phase_events_def gft dest: placing_facts)
    next
      case placed: (Inr u)
      from assms ft Inr po placed obtain b w3 where
        wt: "wait_for_orders_completion g w2 = Some (b, w3)"
        by (auto simp: run_phase_def split: option.splits)
      from wait_loop_shape [OF wt [unfolded wait_for_orders_completion_def
            wait_for_orders_completion'_def]]
      obtain evs3 where evs3: "trace w3 = trace w2 @ evs3" "\<forall>e \<in> set evs3. waiting e"
          "b = Inr True \<longrightarrow> (\<exists>e \<in> set evs3. fill_wait_ok e)"
          "b \<noteq> Inr True \<longrightarrow> (\<forall>e \<in> set evs3. \<not> fill_wait_ok e)"
        by blast
      let ?pre = "Get_full_tick (map fst todo) # evs2 @ evs3"
      have pre: "trace w3 = trace w @ ?pre" using w1 po(2) evs3(1) by simp
      have nocancel: "\<forall>e \<in> set ?pre. \<not> is_cancel e"
        using po(3) evs3(2) by (auto simp: gft dest: placing_facts waiting_facts)
      have buys: "\<forall>e \<in> set ?pre. is_buy_order e \<longrightarrow> sd = STOCK_BUY"
        using po(3) evs3(2) by (auto simp: gft dest: placing_facts waiting_facts)
      have nolog: "Log (Phase_timeout sd') \<notin> set ?pre" for sd'
        using po(3) evs3(2) by (auto dest: placing_facts waiting_facts)
      show ?thesis
      proof (cases b)
        case (Inl e)
        with assms ft Inr po placed wt have "r = Inl e" "w' = w3"
          by (simp_all add: run_phase_def)
        with pre nocancel buys nolog show ?thesis
          by (intro exI [of _ ?pre]) (simp add: phase_events_def)
      next
        case ret: (Inr ok)
        show ?thesis
        proof (cases ok)
          case True
          with assms ft Inr po placed wt ret have "r = Inr True" "w' = w3"
            by (simp_all add: run_phase_def)
          moreover from True ret evs3(3) have "\<exists>e \<in> set ?pre. fill_wait_ok e" by auto
          ultimately show ?thesis using pre nocancel buys nolog
            by (intro exI [of _ ?pre]) (simp add: phase_events_def)
        next
          case False
          with assms ft Inr po placed wt ret have "r = Inr False"
              "w' = logger (Phase_timeout sd) w3"
            by (simp_all add: run_phase_def)
          then show ?thesis using pre nocancel buys nolog
            by (intro exI [of _ "?pre @ [Log (Phase_timeout sd)]"])
               (auto simp: phase_events_def logger_def is_cancel_def is_buy_order_def)
        qed
      qed
    qed
  qed
qed

lemma run_phase_returns:
  assumes "\<forall>n. 0 \<le> latency g n"
  shows "\<exists>r w'. run_phase g sd todo w = Some (r, w')"
proof -
  obtain q w1 where ft: "get_full_tick g (map fst todo) w = (q, w1)"
    by (cases "get_full_tick g (map fst todo) w")
  show ?thesis
  proof (cases q)
    case (Inl e)
    with ft show ?thesis by (simp add: run_phase_def)
  next
    case (Inr rt)
    from place_orders_shape [of sd rt todo w1] obtain p w2 where
      po: "place_orders sd rt todo w1 = Some (p, w2)" by blast
    from wait_loop_terminates [of 2 g "clock w2" 300 w2] assms obtain b w3 where
      "wait_for_orders_completion g w2 = Some (Inr b, w3)"
      by (auto simp: wait_for_orders_completion_def wait_for_orders_completion'_def)
    with ft Inr po show ?thesis
      by (cases p; cases b) (simp_all add: run_phase_def)
  qed
qed

text \<open>
  C6. In an execution of \<open>execute_rebalance\<close> with a non-empty sell list (one that
  returns; it always does when queries take no negative time): every buy order in
  the trace comes after a success line of the fill-wait, which can only be that of
  the sell phase; no cancel call is ever made; and if the sell phase logs its
  fill-wait timeout, the result is \<open>False\<close> and the trace holds no buy order.
\<close>

theorem sell_before_buy:
  assumes "sell_list tv cp \<noteq> []"
  shows "((\<forall>n. 0 \<le> latency g n) \<longrightarrow> (\<exists>r w'. execute_rebalance g tv cp w = Some (r, w')))
     \<and> (\<forall>r w'. execute_rebalance g tv cp w = Some (r, w') \<longrightarrow>
          (\<exists>evs. trace w' = trace w @ evs
             \<and> (\<forall>pre e post. evs = pre @ e # post \<and> is_buy_order e \<longrightarrow>
                   (\<exists>x \<in> set pre. fill_wait_ok x))
             \<and> (\<forall>e \<in> set evs. \<not> is_cancel e)
             \<and> (Log (Phase_timeout STOCK_SELL) \<in> set evs \<longrightarrow>
                   r = Inr False \<and> (\<forall>e \<in> set evs. \<not> is_buy_order e))))"
proof (intro conjI allI impI)
  assume lat: "\<forall>n. 0 \<le> latency g n"
  from run_phase_returns [OF lat, of STOCK_SELL "sell_list tv cp" w] obtain r1 w1 where
    r1: "run_phase g STOCK_SELL (sell_list tv cp) w = Some (r1, w1)" by blast
  from run_phase_returns [OF lat, of STOCK_BUY "buy_list tv cp" w1] obtain r2 w2 where
    r2: "run_phase g STOCK_BUY (buy_list tv cp) w1 = Some (r2, w2)" by blast
  from assms r1 r2 show "\<exists>r w'. execute_rebalance g tv cp w = Some (r, w')"
    by (cases r1) (auto simp: execute_rebalance_def Let_def split: bool.splits)
next
  fix r w'
  assume ex: "execute_rebalance g tv cp w = Some (r, w')"
  with assms obtain r1 w1 where
    r1: "run_phase g STOCK_SELL (sell_list tv cp) w = Some (r1, w1)"
    by (auto simp: execute_rebalance_def Let_def split: option.splits)
  from run_phase_shape [OF r1] obtain evs1 where
    evs1: "trace w1 = trace w @ evs1" "phase_events STOCK_SELL (r1 = Inr True) evs1"
      "Log (Phase_timeout STOCK_SELL) \<in> set evs1 \<longrightarrow> r1 = Inr False"
    by blast
  then have nobuy1: "\<forall>e \<in> set evs1. \<not> is_buy_order e"
    and nocancel1: "\<forall>e \<in> set evs1. \<not> is_cancel e"
    by (auto simp: phase_events_def)
  have "\<exists>evs2. trace w' = trace w1 @ evs2
      \<and> (evs2 \<noteq> [] \<longrightarrow> r1 = Inr True)
      \<and> (r1 \<noteq> Inr True \<longrightarrow> r = r1)
      \<and> (\<forall>e \<in> set evs2. \<not> is_cancel e)
      \<and> Log (Phase_timeout STOCK_SELL) \<notin> set evs2"
  proof (cases "r1 = Inr True")
    case False
    with ex assms r1 have "r = r1" "w' = w1"
      by (auto simp: execute_rebalance_def Let_def split: sum.splits bool.splits)
    with False show ?thesis by simp
  next
    case True
    show ?thesis
    proof (cases "buy_list tv cp = []")
      case True
      with ex assms r1 \<open>r1 = Inr True\<close> have "w' = w1"
        by (simp add: execute_rebalance_def Let_def)
      with \<open>r1 = Inr True\<close> show ?thesis by simp
    next
      case False
      with ex assms r1 \<open>r1 = Inr True\<close> have
        "run_phase g STOCK_BUY (buy_list tv cp) w1 = Some (r, w')"
        by (simp add: execute_rebalance_def Let_def)
      from run_phase_shape [OF this] \<open>r1 = Inr True\<close> show ?thesis
        by (auto simp: phase_events_def)
    qed
  qed
  then obtain evs2 where evs2: "trace w' = trace w1 @ evs2" "evs2 \<noteq> [] \<longrightarrow> r1 = Inr True"
      "r1 \<noteq> Inr True \<longrightarrow> r = r1"
      "\<forall>e \<in> set evs2. \<not> is_cancel e" "Log (Phase_timeout STOCK_SELL) \<notin> set evs2"
    by blast
  have ordering: "\<exists>x \<in> set pre. fill_wait_ok x"
    if dec: "evs1 @ evs2 = pre @ e # post" and buy: "is_buy_order e" for pre e post
  proof -
    from dec obtain us where
      "(evs1 = pre @ us \<and> us @ evs2 = e # post) \<or> (evs1 @ us = pre \<and> evs2 = us @ e # post)"
      by (auto simp: append_eq_append_conv2)
    then show ?thesis
    proof
      assume a: "evs1 = pre @ us \<and> us @ evs2 = e # post"
      have "us = []"
      proof (rule ccontr)
        assume "us \<noteq> []"
        with a have "e \<in> set evs1" by (cases us) auto
        with nobuy1 buy show False by blast
      qed
      with a have "evs1 = pre" "evs2 \<noteq> []" by auto
      with evs2(2) evs1(2) show ?thesis by (auto simp: phase_events_def)
    next
      assume a: "evs1 @ us = pre \<and> evs2 = us @ e # post"
      then have "evs2 \<noteq> []" by auto
      with evs2(2) evs1(2) have "\<exists>x \<in> set evs1. fill_wait_ok x"
        by (auto simp: phase_events_def)
      with a show ?thesis by auto
    qed
  qed
  have timeout: "r = Inr False \<and> (\<forall>e \<in> set (evs1 @ evs2). \<not> is_buy_order e)"
    if "Log (Phase_timeout STOCK_SELL) \<in> set (evs1 @ evs2)"
  proof -
    from that evs2(5) have "Log (Phase_timeout STOCK_SELL) \<in> set evs1" by simp
    with evs1(3) have "r1 = Inr False" by simp
    with evs2(2,3) have "r = Inr False" "evs2 = []" by auto
    with nobuy1 show ?thesis by simp
  qed
  show "\<exists>evs. trace w' = trace w @ evs
             \<and> (\<forall>pre e post. evs = pre @ e # post \<and> is_buy_order e \<longrightarrow>
                   (\<exists>x \<in> set pre. fill_wait_ok x))
             \<and> (\<forall>e \<in> set evs. \<not> is_cancel e)
             \<and> (Log (Phase_timeout STOCK_SELL) \<in> set evs \<longrightarrow>
                   r = Inr False \<and> (\<forall>e \<in> set evs. \<not> is_buy_order e))"
  proof (intro exI [of _ "evs1 @ evs2"] conjI allI impI)
    show "trace w' = trace w @ evs1 @ evs2" using evs1(1) evs2(1) by simp
    show "\<forall>e \<in> set (evs1 @ evs2). \<not> is_cancel e" using nocancel1 evs2(4) by auto
  qed (use ordering timeout in blast)+
qed

theorem sell_before_buy_witness:
  "sell_list plan_AB holdings_AB = [(''B'', 200)]
   \<and> execute_rebalance filling_gateway plan_AB holdings_AB world0 =
       Some (Inr True, \<lparr>clock = 0, ticks = 2, polls = 2,
         trace = [Get_full_tick [''B''], Order_stock STOCK_SELL ''B'' 200 20 Whole,
                  Query_stock_orders, Log All_filled,
                  Get_full_tick [''A''], Order_stock STOCK_BUY ''A'' 200 10 Whole,
                  Query_stock_orders, Log All_filled]\<rparr>)
   \<and> execute_rebalance slow_gateway plan_AB holdings_AB world0 =
       Some (Inr False, \<lparr>clock = 302, ticks = 1, polls = 1,
         trace = [Get_full_tick [''B''], Order_stock STOCK_SELL ''B'' 200 20 Whole,
                  Query_stock_orders, Sleep 2, Log Wait_timeout,
                  Log (Phase_timeout STOCK_SELL)]\<rparr>)"
  using sell_before_buy [of plan_AB holdings_AB filling_gateway world0]
    sell_before_buy [of plan_AB holdings_AB slow_gateway world0]
  by (simp add: execute_rebalance_def run_phase_def sell_list_def buy_list_def target_of_def
        current_of_def plan_AB_def holdings_AB_def world0_def get_full_tick_def ladder_def
        flat_tick_def is_star_market_def order_stock_def wait_for_orders_completion_def
        wait_for_orders_completion'_def wait_loop.simps poll_once_def query_stock_orders_def
        time_sleep_def logger_def filling_gateway_def slow_gateway_def)

subsection \<open>is\_trading\_day\<close>

lemma fetch_fails_unchanged:
  "fetch_fails env y m \<Longrightarrow> fetch_and_cache_month env y m st = (False, st)"
  by (auto simp: fetch_fails_def fetch_and_cache_month_def fetch_and_cache_month_body_def
      split: http.splits sum.splits)

text \<open>
  C8, as the claim states it, fails: a fetch error does not make \<open>is_trading_day\<close> return
  false. With the exchange unreachable and nothing cached, Monday 8 January 2024 is
  reported as a trading day by the static fallback.
\<close>

theorem fetch_error_not_fail_closed_counterexample:
  "fetch_fails offline_env (year mon_jan_08) (month mon_jan_08)
   \<and> is_trading_day offline_env empty_calendar mon_jan_08 = Inr (True, empty_calendar)"
  by (simp add: fetch_fails_def offline_env_def is_trading_day_def is_trading_day_body_def
        empty_calendar_def is_cache_expired_def is_cache_expired_body_def
        fetch_and_cache_month_def fetch_and_cache_month_body_def
        is_trading_day_fallback_def is_trading_day_fallback_body_def contains_def
        weekdays_2024)

text \<open>
  C8, amended. For every date, \<open>is_trading_day\<close> raises nothing and returns a boolean. A
  date in the in-memory set is a trading day. For a date not in that set: when its own
  \<open>try\<close> block raises (the month cache is \<open>None\<close>), its handler returns false; when the
  static fallback raises, the fallback's handler returns false; but a failure of the
  expiry check is taken as "expired" and a failure of the remote fetch as "not
  fetched", and after a failed fetch the answer is the static fallback's, which may be
  true. With a month cache that is a dict, the answer is true exactly when the date is
  in the in-memory set afterwards or the static fallback says so.
\<close>

theorem is_trading_day_handlers:
  "(\<exists>b st'. is_trading_day env st d = Inr (b, st'))
   \<and> (d \<in> trading_days_cache st \<longrightarrow> is_trading_day env st d = Inr (True, st))
   \<and> (d \<notin> trading_days_cache st \<and> monthly_cache st = Null \<longrightarrow>
        raises (is_trading_day_body env st d) \<and> is_trading_day env st d = Inr (False, st))
   \<and> (raises (is_trading_day_fallback_body (holidays env) (workdays env) d) \<longrightarrow>
        \<not> is_trading_day_fallback (holidays env) (workdays env) d)
   \<and> (raises (is_cache_expired_body env st ym) \<longrightarrow> is_cache_expired env st ym)
   \<and> (raises (fst (fetch_and_cache_month_body env y m st)) \<longrightarrow>
        \<not> fst (fetch_and_cache_month env y m st))
   \<and> (d \<notin> trading_days_cache st \<and> monthly_cache st = Months mc
        \<and> fetch_fails env (year d) (month d) \<longrightarrow>
        is_trading_day env st d =
          Inr (is_trading_day_fallback (holidays env) (workdays env) d, st))
   \<and> (monthly_cache st = Months mc \<and> is_trading_day env st d = Inr (b, st') \<longrightarrow>
        (b \<longleftrightarrow> d \<in> trading_days_cache st'
               \<or> is_trading_day_fallback (holidays env) (workdays env) d))"
proof (intro conjI impI)
  show "\<exists>b st'. is_trading_day env st d = Inr (b, st')"
    by (cases "is_trading_day_body env st d") (auto simp: is_trading_day_def)
  show "is_trading_day env st d = Inr (True, st)" if "d \<in> trading_days_cache st"
    using that by (simp add: is_trading_day_def is_trading_day_body_def)
  show "raises (is_trading_day_body env st d)"
    if "d \<notin> trading_days_cache st \<and> monthly_cache st = Null"
    using that by (simp add: is_trading_day_body_def raises_def)
  show "is_trading_day env st d = Inr (False, st)"
    if "d \<notin> trading_days_cache st \<and> monthly_cache st = Null"
    using that by (simp add: is_trading_day_def is_trading_day_body_def)
  show "\<not> is_trading_day_fallback (holidays env) (workdays env) d"
    if "raises (is_trading_day_fallback_body (holidays env) (workdays env) d)"
    using that by (simp add: is_trading_day_fallback_def raises_def split: sum.splits)
  show "is_cache_expired env st ym" if "raises (is_cache_expired_body env st ym)"
    using that by (simp add: is_cache_expired_def raises_def split: sum.splits)
  show "\<not> fst (fetch_and_cache_month env y m st)"
    if "raises (fst (fetch_and_cache_month_body env y m st))"
    using that
    by (cases "fetch_and_cache_month_body env y m st")
       (simp add: fetch_and_cache_month_def raises_def split: sum.splits)
  show "is_trading_day env st d =
          Inr (is_trading_day_fallback (holidays env) (workdays env) d, st)"
    if "d \<notin> trading_days_cache st \<and> monthly_cache st = Months mc
        \<and> fetch_fails env (year d) (month d)"
    using that
    by (simp add: is_trading_day_def is_trading_day_body_def Let_def fetch_fails_unchanged)
  show "b \<longleftrightarrow> d \<in> trading_days_cache st'
               \<or> is_trading_day_fallback (holidays env) (workdays env) d"
    if "monthly_cache st = Months mc \<and> is_trading_day env st d = Inr (b, st')"
    using that
    by (auto simp: is_trading_day_def is_trading_day_body_def Let_def split: if_splits)
qed

theorem is_trading_day_handlers_witness:
  "mon_feb_19 \<in> trading_days_cache warm_calendar
   \<and> is_trading_day offline_env warm_calendar mon_feb_19 = Inr (True, warm_calendar)
   \<and> mon_jan_08 \<notin> trading_days_cache null_calendar
   \<and> monthly_cache null_calendar = Null
   \<and> raises (is_trading_day_body offline_env null_calendar mon_jan_08)
   \<and> is_trading_day offline_env null_calendar mon_jan_08 = Inr (False, null_calendar)
   \<and> raises (is_trading_day_fallback_body (holidays tableless_env) (workdays tableless_env)
        mon_jan_08)
   \<and> is_trading_day tableless_env empty_calendar mon_jan_08 = Inr (False, empty_calendar)
   \<and> raises (is_cache_expired_body offline_env garbled_calendar (2024, 1))
   \<and> is_cache_expired offline_env garbled_calendar (2024, 1)
   \<and> raises (fst (fetch_and_cache_month_body offline_env 2024 1 empty_calendar))
   \<and> \<not> fst (fetch_and_cache_month offline_env 2024 1 empty_calendar)
   \<and> fetch_fails offline_env (year mon_jan_08) (month mon_jan_08)
   \<and> is_trading_day offline_env garbled_calendar mon_jan_08 = Inr (True, garbled_calendar)
   \<and> is_trading_day offline_env empty_calendar sun_feb_04 = Inr (False, empty_calendar)"
proof -
  have wd: "weekday mon_jan_08 = 0" "weekday sun_feb_04 = 6"
    by (simp_all add: weekdays_2024)
  have ym: "year mon_jan_08 = 2024" "month mon_jan_08 = 1"
    by (simp_all add: mon_jan_08_def)
  have ff: "fetch_fails env' y m" if "remote env' = (\<lambda>y m. Http_timeout)" for env' y m
    using that by (simp add: fetch_fails_def)
  have off: "fetch_fails offline_env y m" "fetch_fails tableless_env y m" for y m
    by (rule ff, simp add: offline_env_def tableless_env_def)+
  have tables: "holidays offline_env = Dates {}" "workdays offline_env = Dates {}"
      "holidays tableless_env = No_container" "workdays tableless_env = Dates {}"
    by (simp_all add: offline_env_def tableless_env_def)
  have fb: "is_trading_day_fallback (Dates {}) (Dates {}) mon_jan_08"
      "\<not> is_trading_day_fallback (Dates {}) (Dates {}) sun_feb_04"
      "\<not> is_trading_day_fallback No_container (Dates {}) mon_jan_08"
      "raises (is_trading_day_fallback_body No_container (Dates {}) mon_jan_08)"
    by (simp_all add: is_trading_day_fallback_def is_trading_day_fallback_body_def
          contains_def raises_def wd)
  have st: "trading_days_cache warm_calendar = {mon_feb_19}"
      "trading_days_cache null_calendar = {}" "monthly_cache null_calendar = Null"
      "trading_days_cache empty_calendar = {}" "monthly_cache empty_calendar = Months Map.empty"
      "trading_days_cache garbled_calendar = {}"
      "\<exists>mc. monthly_cache garbled_calendar = Months mc"
    by (simp_all add: warm_calendar_def null_calendar_def empty_calendar_def garbled_calendar_def)
  from st(7) obtain gmc where gmc: "monthly_cache garbled_calendar = Months gmc" by blast
  have exp: "raises (is_cache_expired_body offline_env garbled_calendar (2024, 1))"
    by (simp add: is_cache_expired_body_def garbled_calendar_def raises_def)
  have fetch: "raises (fst (fetch_and_cache_month_body offline_env 2024 1 empty_calendar))"
    by (simp add: fetch_and_cache_month_body_def offline_env_def raises_def)
  note t1 = is_trading_day_handlers [of offline_env warm_calendar mon_feb_19 "(2024, 1)" 2024 1
      Map.empty True warm_calendar]
  note t2 = is_trading_day_handlers [of offline_env null_calendar mon_jan_08 "(2024, 1)" 2024 1
      Map.empty True null_calendar]
  note t3 = is_trading_day_handlers [of tableless_env empty_calendar mon_jan_08 "(2024, 1)"
      2024 1 Map.empty True empty_calendar]
  note t4 = is_trading_day_handlers [of offline_env garbled_calendar mon_jan_08 "(2024, 1)"
      2024 1 gmc True garbled_calendar]
  note t5 = is_trading_day_handlers [of offline_env empty_calendar sun_feb_04 "(2024, 1)"
      2024 1 Map.empty True empty_calendar]
  have a: "is_trading_day offline_env warm_calendar mon_feb_19 = Inr (True, warm_calendar)"
    using t1 st by simp
  have b: "raises (is_trading_day_body offline_env null_calendar mon_jan_08)"
      "is_trading_day offline_env null_calendar mon_jan_08 = Inr (False, null_calendar)"
    using t2 st by simp_all
  have c: "is_trading_day tableless_env empty_calendar mon_jan_08 = Inr (False, empty_calendar)"
    using t3 st off tables fb by simp
  have d: "is_cache_expired offline_env garbled_calendar (2024, 1)"
    using t4 exp by blast
  have e: "\<not> fst (fetch_and_cache_month offline_env 2024 1 empty_calendar)"
    using t5 fetch by blast
  have f: "is_trading_day offline_env garbled_calendar mon_jan_08 = Inr (True, garbled_calendar)"
    using t4 st gmc off tables fb by simp
  have g: "is_trading_day offline_env empty_calendar sun_feb_04 = Inr (False, empty_calendar)"
    using t5 st off tables fb by simp
  from a b c d e f g st exp fetch off tables fb show ?thesis by simp
qed

end
